theory Spec2Isabelle
  imports Complex_Main "HOL-Library.Word"
begin

section \<open>BoutonCount: a shallow embedding of \<^verbatim>\<open>BoutonCount.py\<close>\<close>

text \<open>
  The program proposes bouton candidates as local minima of a smoothed image
  (\<^verbatim>\<open>detect_local_minima\<close>, \<^verbatim>\<open>local_minima_generate_points\<close>), scores a patch around
  each with a neural network, keeps those scoring above 0.80 and writes the result as an
  SVG, a PNG and a CSV file (\<^verbatim>\<open>count_section\<close>).

  Conventions of the embedding.
  \<^item> A two-dimensional numpy array is the list of its rows. All rows of an array have the
    same length (\<open>is_array2\<close>); an array without rows has zero columns.
  \<^item> A Python exception is a value of \<open>error\<close>; a function that can raise returns
    \<open>error + 'a\<close>, with \<open>Inl\<close> for the exception.
  \<^item> float32 and float64 numbers are rationals, and an operation on them is the exact
    operation followed by the rounding of the format (\<open>float32\<close>, \<open>float64\<close>). Where the
    source can divide by zero the IEEE result (NaN or an infinity) is a value of its own.
  \<^item> \<^verbatim>\<open>Constants.py\<close> (the module that defines \<^verbatim>\<open>SIZE\<close> and \<^verbatim>\<open>RADIUS\<close>) is not part of
    the sources at hand, so both constants are parameters of the functions that use them.
  \<^item> The library calls the program makes (numpy, scipy.ndimage, the Keras model) are
    embedded by their documented behaviour; the Gaussian filter and the classifier are
    parameters.
\<close>

subsection \<open>Exceptions\<close>

datatype error = AssertionError | ValueError | IndexError | TypeError

subsection \<open>Arrays\<close>

type_synonym 'a array2 = "'a list list"

definition nrows :: "'a array2 \<Rightarrow> nat" where
  "nrows a = length a"

definition ncols :: "'a array2 \<Rightarrow> nat" where
  "ncols a = (case a of [] \<Rightarrow> 0 | r # _ \<Rightarrow> length r)"

text \<open>\<^verbatim>\<open>a.shape\<close>\<close>

definition shape :: "'a array2 \<Rightarrow> nat \<times> nat" where
  "shape a = (nrows a, ncols a)"

definition is_array2 :: "'a array2 \<Rightarrow> bool" where
  "is_array2 a = list_all (\<lambda>r. length r = ncols a) a"

text \<open>The array of shape \<open>(h, w)\<close> whose entry at \<open>(i, j)\<close> is \<open>f i j\<close>.\<close>

definition tabulate_row :: "(nat \<Rightarrow> nat \<Rightarrow> 'a) \<Rightarrow> nat \<Rightarrow> nat \<Rightarrow> 'a list" where
  "tabulate_row f w i = map (f i) [0..<w]"

definition tabulate2 :: "nat \<Rightarrow> nat \<Rightarrow> (nat \<Rightarrow> nat \<Rightarrow> 'a) \<Rightarrow> 'a array2" where
  "tabulate2 h w f = map (tabulate_row f w) [0..<h]"

text \<open>
  The bounds of the Python slice \<^verbatim>\<open>[a:b]\<close> on a sequence of length \<open>n\<close>: a negative
  index counts from the end, an index beyond either end is clipped, and \<^verbatim>\<open>None\<close> is the
  respective end. The slice holds the indices from the first bound up to, and without,
  the second; it is empty when the second is not above the first.
\<close>

definition slice_index :: "nat \<Rightarrow> int \<Rightarrow> nat" where
  "slice_index n k = (if k < 0 then nat (max (k + int n) 0) else min (nat k) n)"

definition slice_bounds :: "nat \<Rightarrow> int option \<Rightarrow> int option \<Rightarrow> nat \<times> nat" where
  "slice_bounds n a b =
     ((case a of None \<Rightarrow> 0 | Some k \<Rightarrow> slice_index n k),
      (case b of None \<Rightarrow> n | Some k \<Rightarrow> slice_index n k))"

definition in_slice :: "nat \<times> nat \<Rightarrow> nat \<Rightarrow> bool" where
  "in_slice s i = (fst s \<le> i \<and> i < snd s)"

text \<open>\<^verbatim>\<open>xs[a:b]\<close> and \<^verbatim>\<open>arr[a:b, c:d]\<close>, the bounds already computed.\<close>

definition slice1 :: "nat \<times> nat \<Rightarrow> 'a list \<Rightarrow> 'a list" where
  "slice1 s xs = take (snd s - fst s) (drop (fst s) xs)"

definition slice2 :: "nat \<times> nat \<Rightarrow> nat \<times> nat \<Rightarrow> 'a array2 \<Rightarrow> 'a array2" where
  "slice2 rs cs a = map (slice1 cs) (slice1 rs a)"

text \<open>
  numpy broadcasting of two-dimensional operands: two extents are compatible when they
  are equal or one of them is 1, and the result has the larger one.
\<close>

definition broadcast_dim :: "nat \<Rightarrow> nat \<Rightarrow> nat option" where
  "broadcast_dim m n =
     (if m = n then Some m else if m = 1 then Some n else if n = 1 then Some m else None)"

definition broadcast_shapes :: "nat \<times> nat \<Rightarrow> nat \<times> nat \<Rightarrow> (nat \<times> nat) option" where
  "broadcast_shapes s t =
     (case (broadcast_dim (fst s) (fst t), broadcast_dim (snd s) (snd t)) of
        (Some h, Some w) \<Rightarrow> Some (h, w)
      | _ \<Rightarrow> None)"

definition broadcast_to :: "nat \<times> nat \<Rightarrow> 'a array2 \<Rightarrow> 'a array2" where
  "broadcast_to s a =
     tabulate2 (fst s) (snd s)
       (\<lambda>i j. a ! (if nrows a = 1 then 0 else i) ! (if ncols a = 1 then 0 else j))"

text \<open>An elementwise binary operation (\<^verbatim>\<open>a * b\<close>, \<^verbatim>\<open>np.logical_or(a, b)\<close>, ...).\<close>

definition np_binop :: "('a \<Rightarrow> 'b \<Rightarrow> 'c) \<Rightarrow> 'a array2 \<Rightarrow> 'b array2 \<Rightarrow> error + 'c array2" where
  "np_binop f a b =
     (case broadcast_shapes (shape a) (shape b) of
        None \<Rightarrow> Inl ValueError
      | Some s \<Rightarrow> Inr (map2 (map2 f) (broadcast_to s a) (broadcast_to s b)))"

text \<open>
  \<^verbatim>\<open>arr[a:b, c:d] = v\<close>: the value is broadcast to the shape of the slice, which fails
  with \<^verbatim>\<open>ValueError\<close> unless each extent of \<open>v\<close> is that of the slice or 1.
\<close>

definition assign_slice2 ::
  "nat \<times> nat \<Rightarrow> nat \<times> nat \<Rightarrow> 'a array2 \<Rightarrow> 'a array2 \<Rightarrow> error + 'a array2" where
  "assign_slice2 rs cs v a =
     (let h = snd rs - fst rs; w = snd cs - fst cs in
      if (nrows v = h \<or> nrows v = 1) \<and> (ncols v = w \<or> ncols v = 1)
      then Inr (tabulate2 (nrows a) (ncols a)
                  (\<lambda>i j. if in_slice rs i \<and> in_slice cs j
                         then broadcast_to (h, w) v ! (i - fst rs) ! (j - fst cs)
                         else a ! i ! j))
      else Inl ValueError)"

text \<open>\<^verbatim>\<open>arr[a:b, :] = c\<close> and \<^verbatim>\<open>arr[:, a:b] = c\<close> for a scalar \<open>c\<close>.\<close>

definition fill_rows :: "nat \<times> nat \<Rightarrow> 'a \<Rightarrow> 'a array2 \<Rightarrow> 'a array2" where
  "fill_rows rs c a =
     tabulate2 (nrows a) (ncols a) (\<lambda>i j. if in_slice rs i then c else a ! i ! j)"

definition fill_cols :: "nat \<times> nat \<Rightarrow> 'a \<Rightarrow> 'a array2 \<Rightarrow> 'a array2" where
  "fill_cols cs c a =
     tabulate2 (nrows a) (ncols a) (\<lambda>i j. if in_slice cs j then c else a ! i ! j)"

text \<open>
  \<^verbatim>\<open>np.where(x)\<close> followed by \<^verbatim>\<open>np.array(...).T\<close>: the index pairs of the true entries,
  in row-major order.
\<close>

definition np_where :: "bool array2 \<Rightarrow> (nat \<times> nat) list" where
  "np_where x =
     concat (map (\<lambda>i. map (\<lambda>j. (i, j)) (filter (\<lambda>j. x ! i ! j) [0..<length (x ! i)]))
                 [0..<length x])"

subsection \<open>Text\<close>

definition digit_char :: "nat \<Rightarrow> char" where
  "digit_char d = ''0123456789'' ! d"

text \<open>The decimal digits of an integer that is not negative.\<close>

function str_digits :: "int \<Rightarrow> string" where
  "str_digits n =
     (if n < 10 then [digit_char (nat n)]
      else str_digits (n div 10) @ [digit_char (nat (n mod 10))])"
  by pat_completeness auto
termination
  by (relation "measure nat") auto

declare str_digits.simps [simp del]

text \<open>\<^verbatim>\<open>str(n)\<close> for an integer.\<close>

definition str_int :: "int \<Rightarrow> string" where
  "str_int n = (if n < 0 then CHR ''-'' # str_digits (- n) else str_digits n)"

text \<open>
  \<^verbatim>\<open>fmt % args\<close> for a format whose only conversion is \<^verbatim>\<open>%s\<close>, the arguments already
  converted by \<^verbatim>\<open>str\<close>. Python raises \<^verbatim>\<open>TypeError\<close> when the format has more
  conversions than there are arguments ("not enough arguments for format string") and
  when arguments are left over ("not all arguments converted during string formatting").
\<close>

fun py_format :: "string \<Rightarrow> string list \<Rightarrow> error + string" where
  "py_format [] [] = Inr []"
| "py_format [] (a # as) = Inl TypeError"
| "py_format (c # d # cs) as =
     (if c = CHR ''%'' \<and> d = CHR ''s''
      then (case as of
              [] \<Rightarrow> Inl TypeError
            | a # as' \<Rightarrow> (case py_format cs as' of Inl e \<Rightarrow> Inl e | Inr s \<Rightarrow> Inr (a @ s)))
      else (case py_format (d # cs) as of Inl e \<Rightarrow> Inl e | Inr s \<Rightarrow> Inr (c # s)))"
| "py_format [c] as = (case as of [] \<Rightarrow> Inr [c] | _ \<Rightarrow> Inl TypeError)"

subsection \<open>The raster renderer (\<^verbatim>\<open>class CreatePNG\<close>)\<close>

record CreatePNG =
  png_output_name :: string
  png_x :: nat
  png_y :: nat
  png_arr :: "bool array2"
  png_radius :: nat
  png_symbol_shape :: "bool array2"

text \<open>
  \<^verbatim>\<open>CreatePNG.__init__\<close>. \<^verbatim>\<open>count_section\<close> constructs the renderer with
  \<^verbatim>\<open>downscale=1\<close>, for which the nearest-neighbour resize of \<^verbatim>\<open>output\<close> keeps the image
  as it is; the field is left out.
\<close>

definition CreatePNG_init :: "string \<Rightarrow> nat \<times> nat \<Rightarrow> CreatePNG" where
  "CreatePNG_init output_bouton_png_name artboard_size_xy =
     (let r = 3 in
      \<lparr> png_output_name = output_bouton_png_name,
        png_x = fst artboard_size_xy,
        png_y = snd artboard_size_xy,
        png_arr = tabulate2 (fst artboard_size_xy) (snd artboard_size_xy) (\<lambda>_ _. False),
        png_radius = r,
        png_symbol_shape =
          tabulate2 (r * 2 + 1) (r * 2 + 1)
            (\<lambda>x y. (int x - int r)\<^sup>2 + (int y - int r)\<^sup>2 \<le> (int r)\<^sup>2) \<rparr>)"

text \<open>
  \<^verbatim>\<open>CreatePNG.add_symbol\<close>. The \<^verbatim>\<open>ValueError\<close> of a disk that does not fit the canvas
  (a slice cut short at an edge does not broadcast against the 7 by 7 symbol) is caught
  and the canvas stays as it was.
\<close>

definition CreatePNG_add_symbol :: "CreatePNG \<Rightarrow> int \<times> int \<Rightarrow> CreatePNG" where
  "CreatePNG_add_symbol self location_xy =
     (let y = fst location_xy; x = snd location_xy; r = int (png_radius self);
          rs = slice_bounds (nrows (png_arr self)) (Some (x - r)) (Some (x + r + 1));
          cs = slice_bounds (ncols (png_arr self)) (Some (y - r)) (Some (y + r + 1))
      in case np_binop (\<or>) (slice2 rs cs (png_arr self)) (png_symbol_shape self) of
           Inl e \<Rightarrow> self
         | Inr v \<Rightarrow>
             (case assign_slice2 rs cs v (png_arr self) of
                Inl e \<Rightarrow> self
              | Inr a \<Rightarrow> self \<lparr> png_arr := a \<rparr>))"

subsection \<open>The vector renderer (\<^verbatim>\<open>class CreateSVG\<close>)\<close>

record CreateSVG =
  svg_output_svgname :: string
  svg_strings :: "string list"

definition svg_header :: string where
  "svg_header = ''<svg id=\"_Boutons\" data-name=\"Boutons\" xmlns=\"http://www.w3.org/2000/svg\" viewBox=\"0 0 %s %s\"><defs><style>.cls-1{fill:black;stroke:black;}</style></defs>''"

definition svg_circle :: string where
  "svg_circle = ''<circle class=\"cls-1\" cx=\"%s\" cy=\"%s\" r=\"1\"/>''"

definition CreateSVG_init :: "string \<Rightarrow> nat \<times> nat \<Rightarrow> error + CreateSVG" where
  "CreateSVG_init output_svgname artboard_size_xy =
     (let x = snd artboard_size_xy; y = fst artboard_size_xy in
      case py_format svg_header [str_int (int x), str_int (int y)] of
        Inl e \<Rightarrow> Inl e
      | Inr s \<Rightarrow> Inr \<lparr> svg_output_svgname = output_svgname, svg_strings = [s] \<rparr>)"

definition CreateSVG_add_symbol :: "CreateSVG \<Rightarrow> int \<times> int \<Rightarrow> error + CreateSVG" where
  "CreateSVG_add_symbol self location_xy =
     (case py_format svg_circle [str_int (fst location_xy), str_int (snd location_xy)] of
        Inl e \<Rightarrow> Inl e
      | Inr s \<Rightarrow> Inr (self \<lparr> svg_strings := svg_strings self @ [s] \<rparr>))"

text \<open>\<^verbatim>\<open>CreateSVG.output\<close>: the text written to the file.\<close>

definition CreateSVG_output :: "CreateSVG \<Rightarrow> string" where
  "CreateSVG_output self = concat (svg_strings self @ [''</svg>''])"

subsection \<open>Grey-scale morphology (\<^verbatim>\<open>scipy.ndimage\<close>)\<close>

text \<open>
  The boundary mode of the filters is scipy's default, \<^verbatim>\<open>reflect\<close>: the array is
  extended by mirroring it about its edges (\<^verbatim>\<open>d c b a | a b c d | d c b a\<close>), so the
  sample at any integer position \<open>k\<close> is the one at \<open>reflect n k\<close>.
\<close>

definition reflect :: "nat \<Rightarrow> int \<Rightarrow> nat" where
  "reflect n k =
     (let m = k mod (2 * int n) in if m < int n then nat m else nat (2 * int n - 1 - m))"

text \<open>
  A minimum filter of size \<open>n\<close> with origin 0 looks at the positions \<open>i - n div 2\<close> to
  \<open>i - n div 2 + n - 1\<close> along each axis. \<^verbatim>\<open>grey_erosion\<close> with a flat neighbourhood is
  that minimum filter; \<^verbatim>\<open>grey_dilation\<close> is the maximum filter over the mirrored
  neighbourhood (scipy shifts the origin by one for an even size).
\<close>

definition erosion_offsets :: "nat \<Rightarrow> int list" where
  "erosion_offsets n = [- int (n div 2) .. int n - int (n div 2) - 1]"

definition dilation_offsets :: "nat \<Rightarrow> int list" where
  "dilation_offsets n = [- (int n - int (n div 2) - 1) .. int (n div 2)]"

definition window :: "int list \<Rightarrow> 'a array2 \<Rightarrow> nat \<Rightarrow> nat \<Rightarrow> 'a list" where
  "window offs a i j =
     concat (map (\<lambda>di. map (\<lambda>dj. a ! reflect (nrows a) (int i + di) ! reflect (ncols a) (int j + dj))
                          offs) offs)"

definition minimum_at :: "int list \<Rightarrow> ('a::linorder) array2 \<Rightarrow> nat \<Rightarrow> nat \<Rightarrow> 'a" where
  "minimum_at offs a i j = Min (set (window offs a i j))"

definition maximum_at :: "int list \<Rightarrow> ('a::linorder) array2 \<Rightarrow> nat \<Rightarrow> nat \<Rightarrow> 'a" where
  "maximum_at offs a i j = Max (set (window offs a i j))"

definition grey_erosion :: "('a::linorder) array2 \<Rightarrow> nat \<Rightarrow> 'a array2" where
  "grey_erosion a n = tabulate2 (nrows a) (ncols a) (minimum_at (erosion_offsets n) a)"

definition grey_dilation :: "('a::linorder) array2 \<Rightarrow> nat \<Rightarrow> 'a array2" where
  "grey_dilation a n = tabulate2 (nrows a) (ncols a) (maximum_at (dilation_offsets n) a)"

subsection \<open>Binary floating point\<close>

text \<open>
  The rounding of numpy's float arithmetic: to the nearest number of the format, a tie
  going to the even significand. A format is given by the bits of its significand and by
  its least exponent: 24 and -126 for float32, 53 and -1022 for float64. A number too
  large for the format rounds to an infinity; this can only happen where the fields of a
  table are read, and is treated there.
\<close>

definition round_half_even :: "rat \<Rightarrow> int" where
  "round_half_even x =
     (let n = \<lfloor>x\<rfloor>; r = x - of_int n
      in if r < 1 / 2 then n else if 1 / 2 < r then n + 1 else if even n then n else n + 1)"

definition pow2 :: "int \<Rightarrow> rat" where
  "pow2 e = (if 0 \<le> e then 2 ^ nat e else 1 / 2 ^ nat (- e))"

text \<open>The number of binary digits of a positive integer.\<close>

function bit_length :: "int \<Rightarrow> int" where
  "bit_length n = (if n \<le> 0 then 0 else bit_length (n div 2) + 1)"
  by pat_completeness auto
termination
  by (relation "measure nat") auto

declare bit_length.simps [simp del]

text \<open>The exponent \<open>e\<close> of a number \<open>x\<close> other than zero: \<open>2\<^sup>e \<le> \<bar>x\<bar> < 2\<^sup>e\<^sup>+\<^sup>1\<close>.\<close>

definition binary_exponent :: "rat \<Rightarrow> int" where
  "binary_exponent x =
     (if 1 \<le> \<bar>x\<bar> then bit_length \<lfloor>\<bar>x\<bar>\<rfloor> - 1 else - bit_length (\<lceil>1 / \<bar>x\<bar>\<rceil> - 1))"

text \<open>
  Rounding to a format of \<open>p\<close> significant bits: the number is rounded to a multiple of
  the unit in its last place, \<open>2\<^sup>e\<^sup>-\<^sup>p\<^sup>+\<^sup>1\<close>; below the least exponent the unit stays that
  of the least exponent (the subnormal numbers).
\<close>

definition round_to_format :: "nat \<Rightarrow> int \<Rightarrow> rat \<Rightarrow> rat" where
  "round_to_format p emin x =
     (if x = 0 then 0
      else (let e = max (binary_exponent x) emin;
                ulp = pow2 (e - int p + 1)
            in of_int (round_half_even (x / ulp)) * ulp))"

definition float32 :: "rat \<Rightarrow> rat" where
  "float32 = round_to_format 24 (- 126)"

definition float64 :: "rat \<Rightarrow> rat" where
  "float64 = round_to_format 53 (- 1022)"

subsection \<open>The proposal stage\<close>

text \<open>An elementwise operation on two arrays of one shape.\<close>

definition elementwise :: "('a \<Rightarrow> 'b \<Rightarrow> 'c) \<Rightarrow> 'a array2 \<Rightarrow> 'b array2 \<Rightarrow> 'c array2" where
  "elementwise f a b = map2 (map2 f) a b"

text \<open>
  \<^verbatim>\<open>detect_local_minima\<close>. The product of the boolean array with the mask is their
  conjunction (a mask of another shape is broadcast or refused, as numpy does). The four
  slice assignments clear a band along each edge; note that \<^verbatim>\<open>x[-RADIUS:, :]\<close> is
  the whole array when \<^verbatim>\<open>RADIUS\<close> is 0. The array is a float32 array, so that
  \<^verbatim>\<open>dilated - .01\<close> is a float32 subtraction: the constant is converted to float32 and
  the difference is rounded (\<open>subtract_01\<close> is one sample of it).
\<close>

definition subtract_01 :: "rat \<Rightarrow> rat" where
  "subtract_01 d = float32 (d - float32 (1 / 100))"

definition detect_local_minima ::
  "nat \<Rightarrow> rat array2 \<Rightarrow> bool array2 option \<Rightarrow> error + (nat \<times> nat) list" where
  "detect_local_minima RADIUS arr msk =
     (let scale = 4;
          dilated = grey_dilation arr scale;
          eroded = grey_erosion arr scale;
          x1 = elementwise (=) arr eroded;
          x2 = elementwise (<) arr (map (map subtract_01) dilated);
          x = elementwise (\<and>) x1 x2
      in case (case msk of None \<Rightarrow> Inr x | Some m \<Rightarrow> np_binop (\<and>) x m) of
           Inl e \<Rightarrow> Inl e
         | Inr x \<Rightarrow>
             (let x = fill_rows (slice_bounds (nrows x) None (Some (int RADIUS))) False x;
                  x = fill_rows (slice_bounds (nrows x) (Some (- int RADIUS)) None) False x;
                  x = fill_cols (slice_bounds (ncols x) None (Some (int RADIUS))) False x;
                  x = fill_cols (slice_bounds (ncols x) (Some (- int RADIUS)) None) False x
              in Inr (np_where x)))"

text \<open>\<^verbatim>\<open>arr[x - RADIUS:x + RADIUS, y - RADIUS:y + RADIUS]\<close>\<close>

definition patch_slice :: "nat \<Rightarrow> 'a array2 \<Rightarrow> nat \<times> nat \<Rightarrow> 'a array2" where
  "patch_slice RADIUS arr p =
     slice2 (slice_bounds (nrows arr) (Some (int (fst p) - int RADIUS)) (Some (int (fst p) + int RADIUS)))
            (slice_bounds (ncols arr) (Some (int (snd p) - int RADIUS)) (Some (int (snd p) + int RADIUS)))
            arr"

text \<open>\<^verbatim>\<open>arr.astype(np.float32)\<close> for an array of 8-bit samples.\<close>

definition astype_float32 :: "8 word array2 \<Rightarrow> rat array2" where
  "astype_float32 arr = map (map (\<lambda>v. of_nat (unat v))) arr"

text \<open>
  The loop of \<^verbatim>\<open>local_minima_generate_points\<close>: \<^verbatim>\<open>X[i, :, :, 0] = arr[...]\<close> for every
  candidate, into a float32 array of zeros; the 8-bit values of the slice are converted
  on assignment, and the first assignment that does not broadcast raises.
\<close>

fun extract_patches ::
  "nat \<Rightarrow> nat \<Rightarrow> 8 word array2 \<Rightarrow> (nat \<times> nat) list \<Rightarrow> error + rat array2 list" where
  "extract_patches RADIUS SIZE arr [] = Inr []"
| "extract_patches RADIUS SIZE arr (p # ps) =
     (case assign_slice2 (slice_bounds SIZE None None) (slice_bounds SIZE None None)
             (astype_float32 (patch_slice RADIUS arr p)) (tabulate2 SIZE SIZE (\<lambda>_ _. 0)) of
        Inl e \<Rightarrow> Inl e
      | Inr X \<Rightarrow>
          (case extract_patches RADIUS SIZE arr ps of
             Inl e \<Rightarrow> Inl e
           | Inr Xs \<Rightarrow> Inr (X # Xs)))"

text \<open>
  \<^verbatim>\<open>local_minima_generate_points\<close>. The first parameter stands for
  \<^verbatim>\<open>scipy.ndimage.gaussian_filter(_, sigma=1)\<close>.
\<close>

definition local_minima_generate_points ::
  "(rat array2 \<Rightarrow> rat array2) \<Rightarrow> nat \<Rightarrow> nat \<Rightarrow> 8 word array2 \<Rightarrow> bool array2 option
     \<Rightarrow> error + rat array2 list \<times> (nat \<times> nat) list" where
  "local_minima_generate_points gaussian_filter RADIUS SIZE arr msk =
     (let float_arr = astype_float32 arr;
          fuzzy = gaussian_filter float_arr
      in case detect_local_minima RADIUS fuzzy msk of
           Inl e \<Rightarrow> Inl e
         | Inr minima \<Rightarrow>
             if \<not> length minima > 0 then Inl AssertionError
             else (case extract_patches RADIUS SIZE arr minima of
                     Inl e \<Rightarrow> Inl e
                   | Inr X \<Rightarrow> Inr (X, minima)))"

subsection \<open>Normalisation\<close>

text \<open>
  A value of a float array: a number, an infinity or NaN. The rounding of the format of
  the array (\<open>float32\<close> or \<open>float64\<close>) is the parameter \<open>rnd\<close> of the operations below.
\<close>

datatype float = Finite rat | PosInf | NegInf | NaN

text \<open>
  Division of numpy floats. A division by zero is not an exception: it gives NaN for
  \<^verbatim>\<open>0 / 0\<close> and an infinity otherwise (and a \<^verbatim>\<open>RuntimeWarning\<close> on the console).
\<close>

definition np_divide :: "(rat \<Rightarrow> rat) \<Rightarrow> rat \<Rightarrow> rat \<Rightarrow> float" where
  "np_divide rnd a b =
     (if b = 0 then (if a = 0 then NaN else if 0 < a then PosInf else NegInf)
      else Finite (rnd (a / b)))"

text \<open>
  The product of a float with a number: an infinity times zero is NaN.
\<close>

definition np_multiply :: "(rat \<Rightarrow> rat) \<Rightarrow> float \<Rightarrow> rat \<Rightarrow> float" where
  "np_multiply rnd x b =
     (case x of
        Finite a \<Rightarrow> Finite (rnd (a * b))
      | NaN \<Rightarrow> NaN
      | PosInf \<Rightarrow> if b = 0 then NaN else if 0 < b then PosInf else NegInf
      | NegInf \<Rightarrow> if b = 0 then NaN else if 0 < b then NegInf else PosInf)"

text \<open>\<^verbatim>\<open>x * 255\<close>\<close>

definition times_255 :: "(rat \<Rightarrow> rat) \<Rightarrow> float \<Rightarrow> float" where
  "times_255 rnd x = (case x of Finite a \<Rightarrow> Finite (rnd (a * 255)) | _ \<Rightarrow> x)"

text \<open>
  \<^verbatim>\<open>x.astype(np.uint8)\<close>: a number is truncated towards zero and wraps to 8 bits. What
  the cast makes of NaN or an infinity is left to the platform; it is the parameter
  \<open>nonfinite\<close>.
\<close>

definition truncate_to_int :: "rat \<Rightarrow> int" where
  "truncate_to_int a = (if 0 \<le> a then \<lfloor>a\<rfloor> else \<lceil>a\<rceil>)"

definition astype_uint8 :: "(float \<Rightarrow> 8 word) \<Rightarrow> float \<Rightarrow> 8 word" where
  "astype_uint8 nonfinite x = (case x of Finite a \<Rightarrow> word_of_int (truncate_to_int a) | _ \<Rightarrow> nonfinite x)"

text \<open>
  \<^verbatim>\<open>np.array(Image.open(filepath))\<close>, the array of an image file. An image of one band
  gives a two-dimensional array of integer samples (of 8, 16 or 32 bits, or booleans,
  which count as 0 and 1); an image of several bands gives a three-dimensional array of
  8-bit samples, here the rows of pixels, a pixel being the list of its bands. Pillow's
  mode of float samples is left out.
\<close>

datatype picture = Grey "int array2" | Bands "8 word list array2"

text \<open>One pixel of \<^verbatim>\<open>np.sum(arr, axis=2)\<close>; the sum is an unsigned integer of 64 bits.\<close>

definition band_sum :: "8 word list \<Rightarrow> rat" where
  "band_sum px = of_int (sum_list (map uint px))"

text \<open>
  \<^verbatim>\<open>x.astype(np.int16)\<close> for a float: a number is truncated towards zero and wraps to 16
  bits; the cast of NaN or an infinity is the parameter \<open>nonfinite\<close>.
\<close>

definition to_int16 :: "(float \<Rightarrow> 16 word) \<Rightarrow> float \<Rightarrow> 16 word" where
  "to_int16 nonfinite x = (case x of Finite a \<Rightarrow> word_of_int (truncate_to_int a) | _ \<Rightarrow> nonfinite x)"

text \<open>
  \<^verbatim>\<open>file_to_array\<close>, on the array of the image file. Every call of the program leaves
  \<^verbatim>\<open>average\<close> at its default \<^verbatim>\<open>True\<close>. For an image of several bands the bands are summed
  and \<^verbatim>\<open>arr = arr * (255 / arr.max())\<close> scales the sums in float64: the quotient is
  rounded, and so is every product. The maximum of an array without elements raises
  \<^verbatim>\<open>ValueError\<close>; a maximum of zero makes the quotient an infinity and every product
  NaN. The cast to 16-bit integers wraps the integer samples of an image of one band.
\<close>

definition file_to_array :: "(float \<Rightarrow> 16 word) \<Rightarrow> picture \<Rightarrow> error + 16 word array2" where
  "file_to_array nonfinite im =
     (case im of
        Grey arr \<Rightarrow> Inr (map (map word_of_int) arr)
      | Bands arr \<Rightarrow>
          (let arr = map (map band_sum) arr
           in if concat arr = [] then Inl ValueError
              else (let factor = np_divide float64 255 (Max (set (concat arr)));
                        arr = map (map (np_multiply float64 factor)) arr
                    in Inr (map (map (to_int16 nonfinite)) arr))))"

text \<open>\<^verbatim>\<open>.astype(np.float32)\<close> of a 16-bit signed sample, which is exact.\<close>

definition int16_to_float32 :: "16 word \<Rightarrow> rat" where
  "int16_to_float32 v = of_int (sint v)"

text \<open>One sample of \<^verbatim>\<open>(arr - arr.min()) / (arr.max() - arr.min())\<close>.\<close>

definition rescale :: "(rat \<Rightarrow> rat) \<Rightarrow> rat \<Rightarrow> rat \<Rightarrow> rat \<Rightarrow> float" where
  "rescale rnd lo hi v = np_divide rnd (rnd (v - lo)) (rnd (hi - lo))"

text \<open>One sample of \<^verbatim>\<open>(arr * 255).astype(np.uint8)\<close>.\<close>

definition to_uint8 :: "(rat \<Rightarrow> rat) \<Rightarrow> (float \<Rightarrow> 8 word) \<Rightarrow> float \<Rightarrow> 8 word" where
  "to_uint8 rnd nonfinite x = astype_uint8 nonfinite (times_255 rnd x)"

text \<open>
  The normalisation of \<^verbatim>\<open>count_section\<close>, on the array \<^verbatim>\<open>file_to_array\<close> returns:
  \<^verbatim>\<open>.astype(np.float32)\<close>, \<^verbatim>\<open>arr = (arr - arr.min()) / (arr.max() - arr.min())\<close> and
  \<^verbatim>\<open>arr = (arr * 255).astype(np.uint8)\<close>, all in float32. The minimum of an array
  without elements raises \<^verbatim>\<open>ValueError\<close>.
\<close>

definition normalize_image :: "(float \<Rightarrow> 8 word) \<Rightarrow> 16 word array2 \<Rightarrow> error + 8 word array2" where
  "normalize_image nonfinite img =
     (let arr = map (map int16_to_float32) img in
      if concat arr = [] then Inl ValueError
      else (let lo = Min (set (concat arr));
                hi = Max (set (concat arr));
                arr = map (map (rescale float32 lo hi)) arr;
                arr = map (map (to_uint8 float32 nonfinite)) arr
            in Inr arr))"

text \<open>
  Lines 204 to 206 of \<^verbatim>\<open>count_section\<close>, from the image file to the normalised array:
  \<^verbatim>\<open>arr = file_to_array(image).astype(np.float32)\<close> and the two lines of the
  normalisation. The two parameters are the casts of a value that is no number to 16 and
  to 8 bits.
\<close>

definition normalize_file ::
  "(float \<Rightarrow> 16 word) \<Rightarrow> (float \<Rightarrow> 8 word) \<Rightarrow> picture \<Rightarrow> error + 8 word array2" where
  "normalize_file nonfinite_short nonfinite im =
     (case file_to_array nonfinite_short im of
        Inl e \<Rightarrow> Inl e
      | Inr img \<Rightarrow> normalize_image nonfinite img)"

text \<open>
  A rounding is exact on the integers when it leaves every integer of magnitude up to
  \<open>2\<^sup>2\<^sup>4\<close> as it is.
\<close>

definition exact_on_integers :: "(rat \<Rightarrow> rat) \<Rightarrow> bool" where
  "exact_on_integers rnd = (\<forall>n::int. \<bar>n\<bar> \<le> 2 ^ 24 \<longrightarrow> rnd (of_int n) = of_int n)"


subsection \<open>Reading and writing the table of coordinates (\<^verbatim>\<open>np.loadtxt\<close>, \<^verbatim>\<open>np.savetxt\<close>)\<close>

text \<open>
  An array of up to two dimensions. The candidates the pipeline accepts are the rows of a
  two-dimensional array; \<^verbatim>\<open>np.loadtxt\<close> can also return an array of one or of no
  dimension.
\<close>

datatype 'a ndarray = Array0 'a | Array1 "'a list" | Array2 "'a list list"

text \<open>\<^verbatim>\<open>a.shape[0]\<close>; the shape of an array of no dimension is the empty tuple.\<close>

fun shape0 :: "'a ndarray \<Rightarrow> error + nat" where
  "shape0 (Array0 x) = Inl IndexError"
| "shape0 (Array1 xs) = Inr (length xs)"
| "shape0 (Array2 rows) = Inr (length rows)"

text \<open>
  \<^verbatim>\<open>a[i, j]\<close> for indices that are not negative: an array of fewer than two dimensions
  has too many indices, and an index beyond its axis is out of bounds.
\<close>

fun item2 :: "'a ndarray \<Rightarrow> nat \<Rightarrow> nat \<Rightarrow> error + 'a" where
  "item2 (Array2 rows) i j =
     (if i < length rows \<and> j < length (rows ! i) then Inr (rows ! i ! j) else Inl IndexError)"
| "item2 _ i j = Inl IndexError"

text \<open>The first exception of a list of results, or all the values.\<close>

fun sequence :: "(error + 'a) list \<Rightarrow> error + 'a list" where
  "sequence [] = Inr []"
| "sequence (r # rs) =
     (case r of
        Inl e \<Rightarrow> Inl e
      | Inr x \<Rightarrow> (case sequence rs of Inl e \<Rightarrow> Inl e | Inr xs \<Rightarrow> Inr (x # xs)))"

text \<open>\<^verbatim>\<open>s.split(c)\<close>\<close>

fun split_on :: "char \<Rightarrow> string \<Rightarrow> string list" where
  "split_on c [] = [[]]"
| "split_on c (x # xs) =
     (if x = c then [] # split_on c xs
      else (case split_on c xs of [] \<Rightarrow> [[x]] | r # rs \<Rightarrow> (x # r) # rs))"

text \<open>\<^verbatim>\<open>c.join(parts)\<close>\<close>

fun join :: "char \<Rightarrow> string list \<Rightarrow> string" where
  "join c [] = []"
| "join c [s] = s"
| "join c (s # t # ss) = s @ c # join c (t # ss)"

definition is_digit :: "char \<Rightarrow> bool" where
  "is_digit c = (c \<in> set ''0123456789'')"

definition digit_value :: "char \<Rightarrow> int" where
  "digit_value c = int (length (takeWhile (\<lambda>d. d \<noteq> c) ''0123456789''))"

definition push_digit :: "int \<Rightarrow> char \<Rightarrow> int" where
  "push_digit n c = 10 * n + digit_value c"

definition digits_value :: "string \<Rightarrow> int" where
  "digits_value s = foldl push_digit 0 s"

definition split_sign :: "string \<Rightarrow> bool \<times> string" where
  "split_sign s =
     (case s of
        [] \<Rightarrow> (False, s)
      | c # t \<Rightarrow> if c = CHR ''-'' then (True, t) else if c = CHR ''+'' then (False, t) else (False, s))"

definition parse_exponent :: "string \<Rightarrow> int option" where
  "parse_exponent s =
     (case s of
        [] \<Rightarrow> Some 0
      | c # t \<Rightarrow>
          if c = CHR ''e'' \<or> c = CHR ''E''
          then (let sd = split_sign t in
                if snd sd \<noteq> [] \<and> list_all is_digit (snd sd)
                then Some (if fst sd then - digits_value (snd sd) else digits_value (snd sd))
                else None)
          else None)"

definition split_fraction :: "string \<Rightarrow> string \<times> string" where
  "split_fraction s =
     (case s of
        [] \<Rightarrow> ([], s)
      | c # t \<Rightarrow> if c = CHR ''.'' then (takeWhile is_digit t, dropWhile is_digit t) else ([], s))"

definition scale10 :: "int \<Rightarrow> int \<Rightarrow> rat" where
  "scale10 m k = (if 0 \<le> k then of_int m * 10 ^ nat k else of_int m / 10 ^ nat (- k))"

text \<open>
  The number a decimal numeral denotes: an optional sign, digits with an optional point,
  an optional exponent. Other text raises \<^verbatim>\<open>ValueError\<close>. This is \<^verbatim>\<open>float(s)\<close> for such a
  numeral whenever the number is a float64, as every integer up to \<open>2\<^sup>5\<^sup>3\<close> is.
\<close>

definition py_float :: "string \<Rightarrow> error + rat" where
  "py_float s =
     (let sd = split_sign s;
          ip = takeWhile is_digit (snd sd);
          fr = split_fraction (dropWhile is_digit (snd sd))
      in if ip = [] \<and> fst fr = [] then Inl ValueError
         else (case parse_exponent (snd fr) of
                 None \<Rightarrow> Inl ValueError
               | Some e \<Rightarrow>
                   (let v = scale10 (digits_value (ip @ fst fr)) (e - int (length (fst fr)))
                    in Inr (if fst sd then - v else v))))"

text \<open>
  The squeeze at the end of \<^verbatim>\<open>np.loadtxt\<close> (\<^verbatim>\<open>ndmin=0\<close>): every axis of length one is
  dropped. No row at all gives an empty array of one dimension.
\<close>

definition squeeze :: "'a list list \<Rightarrow> 'a ndarray" where
  "squeeze rows =
     (case rows of
        [] \<Rightarrow> Array1 []
      | [r] \<Rightarrow> (case r of [x] \<Rightarrow> Array0 x | _ \<Rightarrow> Array1 r)
      | _ \<Rightarrow> if ncols rows = 1 then Array1 (map hd rows) else Array2 rows)"

text \<open>
  The float64 value of a number: the number rounded, or an infinity when the rounding
  leaves the range of float64.
\<close>

definition to_float64 :: "rat \<Rightarrow> float" where
  "to_float64 v =
     (let r = float64 v
      in if r \<noteq> 0 \<and> 1024 \<le> binary_exponent r then (if 0 < r then PosInf else NegInf)
         else Finite r)"

text \<open>The blanks of ASCII, which are ignored around a number.\<close>

definition is_space :: "char \<Rightarrow> bool" where
  "is_space c =
     (c \<in> set [CHR '' '', CHR 0x09, CHR 0x0A, CHR 0x0B, CHR 0x0C, CHR 0x0D,
                CHR 0x1C, CHR 0x1D, CHR 0x1E, CHR 0x1F])"

definition strip :: "string \<Rightarrow> string" where
  "strip s = rev (dropWhile is_space (rev (dropWhile is_space s)))"

definition lower :: "char \<Rightarrow> char" where
  "lower c =
     (case map_of (zip ''ABCDEFGHIJKLMNOPQRSTUVWXYZ'' ''abcdefghijklmnopqrstuvwxyz'') c of
        Some l \<Rightarrow> l
      | None \<Rightarrow> c)"

text \<open>
  The float a field of the table is read as: blanks around it are ignored, \<^verbatim>\<open>inf\<close>,
  \<^verbatim>\<open>infinity\<close> and \<^verbatim>\<open>nan\<close> (in any case of the letters, with an optional sign) are
  read as such, and a decimal numeral is rounded to float64.
\<close>

definition read_field :: "string \<Rightarrow> error + float" where
  "read_field s =
     (let t = strip s;
          sd = split_sign t;
          w = map lower (snd sd)
      in if w = ''inf'' \<or> w = ''infinity'' then Inr (if fst sd then NegInf else PosInf)
         else if w = ''nan'' then Inr NaN
         else (case py_float t of Inl e \<Rightarrow> Inl e | Inr v \<Rightarrow> Inr (to_float64 v)))"

definition parse_line :: "string \<Rightarrow> error + float list" where
  "parse_line l = sequence (map read_field (split_on CHR '','' l))"

text \<open>
  The text of a file opened in text mode: a carriage return followed by a line feed,
  and a carriage return alone, are read as a line feed.
\<close>

fun universal_newlines :: "string \<Rightarrow> string" where
  "universal_newlines [] = []"
| "universal_newlines [c] = (if c = CHR 0x0D then [CHR 0x0A] else [c])"
| "universal_newlines (c # d # cs) =
     (if c = CHR 0x0D
      then (if d = CHR 0x0A then CHR 0x0A # universal_newlines cs
            else CHR 0x0A # universal_newlines (d # cs))
      else c # universal_newlines (d # cs))"

definition before_comment :: "string \<Rightarrow> string" where
  "before_comment l = takeWhile (\<lambda>c. c \<noteq> CHR ''#'') l"

text \<open>
  \<^verbatim>\<open>np.loadtxt(f, delimiter=",")\<close> on the contents of the file: a comment runs from \<^verbatim>\<open>#\<close>
  to the end of its line, empty lines are skipped, every field is read as a float, and
  all lines must have as many fields as the first.
\<close>

definition loadtxt :: "string \<Rightarrow> error + float ndarray" where
  "loadtxt text =
     (let lines = filter (\<lambda>l. l \<noteq> [])
                    (map before_comment (split_on CHR 0x0A (universal_newlines text)))
      in case sequence (map parse_line lines) of
           Inl e \<Rightarrow> Inl e
         | Inr rows \<Rightarrow> if is_array2 rows then Inr (squeeze rows) else Inl ValueError)"

text \<open>
  \<^verbatim>\<open>.astype(np.int16)\<close> of a float64, as the x86-64 processors convert: the number is
  truncated towards zero to an integer of 32 bits, of which the lower 16 bits are kept;
  a number beyond 32 bits, an infinity and NaN give 0.
\<close>

definition float_to_int16 :: "float \<Rightarrow> int" where
  "float_to_int16 x =
     (case x of
        Finite v \<Rightarrow>
          (let n = truncate_to_int v
           in if - (2 ^ 31) \<le> n \<and> n < 2 ^ 31 then sint (word_of_int n :: 16 word) else 0)
      | _ \<Rightarrow> 0)"

fun astype_int16 :: "float ndarray \<Rightarrow> int ndarray" where
  "astype_int16 (Array0 x) = Array0 (float_to_int16 x)"
| "astype_int16 (Array1 xs) = Array1 (map float_to_int16 xs)"
| "astype_int16 (Array2 rows) = Array2 (map (map float_to_int16) rows)"

text \<open>
  \<^verbatim>\<open>'%.18e' % n\<close> for an integer \<open>n\<close>: the first digit, a point, eighteen more digits and
  the decimal exponent with a sign and at least two digits. (Exact for every integer that
  is a float64, that is up to \<open>2\<^sup>5\<^sup>3\<close> in magnitude.)
\<close>

definition pad2 :: "string \<Rightarrow> string" where
  "pad2 s = (if length s < 2 then CHR ''0'' # s else s)"

definition format_18e :: "int \<Rightarrow> string" where
  "format_18e n =
     (let ds = str_digits \<bar>n\<bar>;
          body = hd ds # CHR ''.'' # take 18 (tl ds @ replicate 18 CHR ''0'') @
                 ''e+'' @ pad2 (str_digits (int (length ds) - 1))
      in if n < 0 then CHR ''-'' # body else body)"

definition format_row :: "int list \<Rightarrow> string" where
  "format_row r = join CHR '','' (map format_18e r) @ ''\<newline>''"

text \<open>
  \<^verbatim>\<open>np.savetxt(f, X, delimiter=",")\<close>: the text written. There is no header; every row of
  the array is a line, its values in the default format \<^verbatim>\<open>%.18e\<close>. An array of one
  dimension is written as a column, and one of no dimension is refused.
\<close>

fun savetxt :: "int ndarray \<Rightarrow> error + string" where
  "savetxt (Array0 x) = Inl ValueError"
| "savetxt (Array1 xs) = Inr (concat (map (\<lambda>x. format_row [x]) xs))"
| "savetxt (Array2 rows) = Inr (concat (map format_row rows))"


subsection \<open>Verification\<close>

text \<open>\<^verbatim>\<open>output[:, 0]\<close>: the first entry of every row.\<close>

definition column0 :: "'a array2 \<Rightarrow> error + 'a list" where
  "column0 output = (if list_all (\<lambda>r. r \<noteq> []) output then Inr (map hd output) else Inl IndexError)"

text \<open>
  \<^verbatim>\<open>COMs[b, :]\<close> for a boolean array \<open>b\<close>: the rows at the true positions; the length of
  \<open>b\<close> must be the number of rows.
\<close>

definition boolean_index :: "'a list \<Rightarrow> bool list \<Rightarrow> error + 'a list" where
  "boolean_index xs bs =
     (if length bs = length xs then Inr (map fst (filter snd (zip xs bs))) else Inl IndexError)"

text \<open>
  \<^verbatim>\<open>score > 0.80\<close> for a score of the float32 array the classifier returns. The
  comparison is made in float32: the constant is converted to the float32 number nearest
  to 0.80, which is 13421773 / 16777216, a little more than 0.80.
\<close>

definition above_threshold :: "rat \<Rightarrow> bool" where
  "above_threshold score = (float32 (80 / 100) < score)"

definition coordinates :: "nat \<times> nat \<Rightarrow> int list" where
  "coordinates p = [int (fst p), int (snd p)]"

text \<open>Line 277 of \<^verbatim>\<open>count_section\<close>: \<^verbatim>\<open>true_cells = COMs[output[:, 0] > 0.80, :]\<close>.\<close>

definition select_true_cells :: "(nat \<times> nat) list \<Rightarrow> rat array2 \<Rightarrow> error + int ndarray" where
  "select_true_cells COMs output =
     (case column0 output of
        Inl e \<Rightarrow> Inl e
      | Inr scores \<Rightarrow>
          (case boolean_index COMs (map above_threshold scores) of
             Inl e \<Rightarrow> Inl e
           | Inr cells \<Rightarrow> Inr (Array2 (map coordinates cells))))"

subsection \<open>Processing a section (\<^verbatim>\<open>count_section\<close>)\<close>

record OutputFileType =
  oft_svg :: bool
  oft_csv :: bool
  oft_png :: bool

definition OutputFileType_any :: "OutputFileType \<Rightarrow> bool" where
  "OutputFileType_any self = (oft_svg self \<or> oft_csv self \<or> oft_png self)"

type_synonym rgba = "8 word \<times> 8 word \<times> 8 word \<times> 8 word"

text \<open>
  The files of a section directory that \<^verbatim>\<open>count_section\<close> reads or writes once the image
  is loaded: the mask (as \<^verbatim>\<open>file_to_array\<close> decodes it) and the three outputs. A file
  that does not exist is \<open>None\<close>.
\<close>

record section_files =
  Mask_png :: "16 word array2 option"
  BoutonCount_csv :: "string option"
  Boutons_svg :: "string option"
  Boutons_png :: "rgba array2 option"

text \<open>
  What the module takes from outside: the constants of \<^verbatim>\<open>Constants.py\<close>, the global
  \<^verbatim>\<open>color\<close> set by the main block, and scipy's Gaussian filter with \<^verbatim>\<open>sigma=1\<close>.
\<close>

record environment =
  env_RADIUS :: nat
  env_SIZE :: nat
  env_color :: "int list"
  env_gaussian_filter :: "rat array2 \<Rightarrow> rat array2"

text \<open>The calls of a run that the claims speak about, in the order they are made.\<close>

datatype call =
  Call_loadtxt
  | Call_generate_border_and_mask
  | Call_local_minima_generate_points
  | Call_predict
  | Call_CreateSVG
  | Call_CreatePNG
  | Call_savetxt

text \<open>
  How a run ends: it completes, it returns early, or an exception leaves
  \<^verbatim>\<open>count_section\<close>.
\<close>

datatype status = Done | Returned | Raised error

record outcome =
  out_files :: section_files
  out_calls :: "call list"
  out_true_cells :: "int ndarray option"
  out_status :: status

definition above_128 :: "16 word \<Rightarrow> bool" where
  "above_128 v = (128 < sint v)"

text \<open>
  \<^verbatim>\<open>generate_border_and_mask\<close>, on the decoded mask file. The border it also computes is
  discarded by its only caller and left out.
\<close>

definition generate_border_and_mask :: "16 word array2 \<Rightarrow> bool array2" where
  "generate_border_and_mask m = map (map above_128) m"

definition pixel :: "int list \<Rightarrow> bool \<Rightarrow> rgba" where
  "pixel color b =
     (word_of_int (color ! 0), word_of_int (color ! 1), word_of_int (color ! 2), if b then 255 else 0)"

text \<open>
  \<^verbatim>\<open>CreatePNG.output\<close>: the RGBA image saved. Reading \<^verbatim>\<open>color[0]\<close> to \<^verbatim>\<open>color[2]\<close>
  raises \<^verbatim>\<open>IndexError\<close> when the list is shorter.
\<close>

definition CreatePNG_output :: "int list \<Rightarrow> CreatePNG \<Rightarrow> error + rgba array2" where
  "CreatePNG_output color self =
     (if length color < 3 then Inl IndexError else Inr (map (map (pixel color)) (png_arr self)))"

text \<open>\<^verbatim>\<open>(true_cells[i, 1], true_cells[i, 0])\<close>\<close>

definition location_xy :: "int ndarray \<Rightarrow> nat \<Rightarrow> error + int \<times> int" where
  "location_xy true_cells i =
     (case item2 true_cells i 1 of
        Inl e \<Rightarrow> Inl e
      | Inr a \<Rightarrow> (case item2 true_cells i 0 of Inl e \<Rightarrow> Inl e | Inr b \<Rightarrow> Inr (a, b)))"

text \<open>The loops \<^verbatim>\<open>for i in range(true_cells.shape[0]): ....add_symbol(...)\<close>.\<close>

fun svg_add_symbols :: "int ndarray \<Rightarrow> nat list \<Rightarrow> CreateSVG \<Rightarrow> error + CreateSVG" where
  "svg_add_symbols true_cells [] svg = Inr svg"
| "svg_add_symbols true_cells (i # is) svg =
     (case location_xy true_cells i of
        Inl e \<Rightarrow> Inl e
      | Inr l \<Rightarrow>
          (case CreateSVG_add_symbol svg l of
             Inl e \<Rightarrow> Inl e
           | Inr svg' \<Rightarrow> svg_add_symbols true_cells is svg'))"

fun png_add_symbols :: "int ndarray \<Rightarrow> nat list \<Rightarrow> CreatePNG \<Rightarrow> error + CreatePNG" where
  "png_add_symbols true_cells [] png = Inr png"
| "png_add_symbols true_cells (i # is) png =
     (case location_xy true_cells i of
        Inl e \<Rightarrow> Inl e
      | Inr l \<Rightarrow> png_add_symbols true_cells is (CreatePNG_add_symbol png l))"

text \<open>Lines 280 to 283: the text of \<^verbatim>\<open>Boutons.svg\<close>.\<close>

definition render_svg :: "string \<Rightarrow> nat \<times> nat \<Rightarrow> int ndarray \<Rightarrow> nat \<Rightarrow> error + string" where
  "render_svg output_svg shp true_cells n =
     (case CreateSVG_init output_svg shp of
        Inl e \<Rightarrow> Inl e
      | Inr svg \<Rightarrow>
          (case svg_add_symbols true_cells [0..<n] svg of
             Inl e \<Rightarrow> Inl e
           | Inr svg' \<Rightarrow> Inr (CreateSVG_output svg')))"

text \<open>Lines 285 to 288: the canvas, and the image of \<^verbatim>\<open>Boutons.png\<close>.\<close>

definition render_canvas :: "string \<Rightarrow> nat \<times> nat \<Rightarrow> int ndarray \<Rightarrow> nat \<Rightarrow> error + CreatePNG" where
  "render_canvas output_png shp true_cells n =
     png_add_symbols true_cells [0..<n] (CreatePNG_init output_png shp)"

definition render_png ::
  "int list \<Rightarrow> string \<Rightarrow> nat \<times> nat \<Rightarrow> int ndarray \<Rightarrow> nat \<Rightarrow> error + rgba array2" where
  "render_png color output_png shp true_cells n =
     (case render_canvas output_png shp true_cells n of
        Inl e \<Rightarrow> Inl e
      | Inr png \<Rightarrow> CreatePNG_output color png)"

definition raise :: "outcome \<Rightarrow> call list \<Rightarrow> error \<Rightarrow> outcome" where
  "raise r cs e = r \<lparr> out_calls := out_calls r @ cs, out_status := Raised e \<rparr>"

text \<open>Lines 279 to 283.\<close>

definition write_svg :: "string \<Rightarrow> OutputFileType \<Rightarrow> nat \<times> nat \<Rightarrow> int ndarray \<Rightarrow> nat \<Rightarrow> outcome \<Rightarrow> outcome" where
  "write_svg directory oft shp true_cells n r =
     (if oft_svg oft \<and> \<not> Boutons_svg (out_files r) \<noteq> None
      then (case render_svg (directory @ ''/Boutons.svg'') shp true_cells n of
              Inl e \<Rightarrow> raise r [Call_CreateSVG] e
            | Inr doc \<Rightarrow>
                r \<lparr> out_files := (out_files r) \<lparr> Boutons_svg := Some doc \<rparr>,
                    out_calls := out_calls r @ [Call_CreateSVG] \<rparr>)
      else r)"

text \<open>Lines 284 to 288.\<close>

definition write_png ::
  "int list \<Rightarrow> string \<Rightarrow> OutputFileType \<Rightarrow> nat \<times> nat \<Rightarrow> int ndarray \<Rightarrow> nat \<Rightarrow> outcome \<Rightarrow> outcome" where
  "write_png color directory oft shp true_cells n r =
     (if oft_png oft
      then (case render_png color (directory @ ''/Boutons.png'') shp true_cells n of
              Inl e \<Rightarrow> raise r [Call_CreatePNG] e
            | Inr im \<Rightarrow>
                r \<lparr> out_files := (out_files r) \<lparr> Boutons_png := Some im \<rparr>,
                    out_calls := out_calls r @ [Call_CreatePNG] \<rparr>)
      else r)"

text \<open>Lines 289 and 290.\<close>

definition write_csv :: "OutputFileType \<Rightarrow> int ndarray \<Rightarrow> outcome \<Rightarrow> outcome" where
  "write_csv oft true_cells r =
     (if oft_csv oft
      then (case savetxt true_cells of
              Inl e \<Rightarrow> raise r [Call_savetxt] e
            | Inr text \<Rightarrow>
                r \<lparr> out_files := (out_files r) \<lparr> BoutonCount_csv := Some text \<rparr>,
                    out_calls := out_calls r @ [Call_savetxt] \<rparr>)
      else r)"

text \<open>
  Lines 278 to 290: the outputs, one after the other; an exception ends the run where it
  is raised. (\<^verbatim>\<open>true_cells.shape[0]\<close> is first read by the \<^verbatim>\<open>print\<close> of line 278.)
\<close>

definition write_outputs ::
  "int list \<Rightarrow> string \<Rightarrow> OutputFileType \<Rightarrow> nat \<times> nat \<Rightarrow> int ndarray \<Rightarrow> outcome \<Rightarrow> outcome" where
  "write_outputs color directory oft shp true_cells r =
     (case shape0 true_cells of
        Inl e \<Rightarrow> raise r [] e
      | Inr n \<Rightarrow>
          (let r = write_svg directory oft shp true_cells n r in
           if out_status r \<noteq> Done then r
           else (let r = write_png color directory oft shp true_cells n r in
                 if out_status r \<noteq> Done then r
                 else write_csv oft true_cells r)))"

text \<open>
  Lines 260 to 267: the mask. When the shapes differ the code prints a line of stars and
  then formats \<^verbatim>\<open>"Mask and image have different shape for " % directory\<close>; the
  \<^verbatim>\<open>return\<close> comes after these prints. The result is the calls made and either the
  mask or the way the run ends here.
\<close>

definition load_mask ::
  "string \<Rightarrow> 8 word array2 \<Rightarrow> section_files \<Rightarrow> call list \<times> (status + bool array2 option)" where
  "load_mask directory arr fs =
     (case Mask_png fs of
        None \<Rightarrow> ([], Inr None)
      | Some m \<Rightarrow>
          (let msk = generate_border_and_mask m in
           if shape arr \<noteq> shape msk
           then (case py_format ''Mask and image have different shape for '' [directory] of
                   Inl e \<Rightarrow> ([Call_generate_border_and_mask], Inl (Raised e))
                 | Inr line \<Rightarrow> ([Call_generate_border_and_mask], Inl Returned))
           else ([Call_generate_border_and_mask], Inr (Some msk))))"

text \<open>Lines 260 to 277: proposal and verification, when there is no table to load.\<close>

definition detect_true_cells ::
  "environment \<Rightarrow> string \<Rightarrow> (rat array2 list \<Rightarrow> rat array2) \<Rightarrow> 8 word array2 \<Rightarrow> section_files
     \<Rightarrow> call list \<times> (status + int ndarray)" where
  "detect_true_cells env directory model arr fs =
     (case load_mask directory arr fs of
        (cs, Inl st) \<Rightarrow> (cs, Inl st)
      | (cs, Inr msk) \<Rightarrow>
          (case local_minima_generate_points (env_gaussian_filter env) (env_RADIUS env) (env_SIZE env)
                  arr msk of
             Inl e \<Rightarrow> (cs @ [Call_local_minima_generate_points], Inl (Raised e))
           | Inr (X, COMs) \<Rightarrow>
               (case select_true_cells COMs (model X) of
                  Inl e \<Rightarrow> (cs @ [Call_local_minima_generate_points, Call_predict], Inl (Raised e))
                | Inr true_cells \<Rightarrow>
                    (cs @ [Call_local_minima_generate_points, Call_predict], Inr true_cells))))"

text \<open>Lines 257 to 277: the accepted candidates, from the table when it exists.\<close>

definition obtain_true_cells ::
  "environment \<Rightarrow> string \<Rightarrow> (rat array2 list \<Rightarrow> rat array2) \<Rightarrow> 8 word array2 \<Rightarrow> section_files
     \<Rightarrow> call list \<times> (status + int ndarray)" where
  "obtain_true_cells env directory model arr fs =
     (case BoutonCount_csv fs of
        Some text \<Rightarrow>
          (case loadtxt text of
             Inl e \<Rightarrow> ([Call_loadtxt], Inl (Raised e))
           | Inr a \<Rightarrow> ([Call_loadtxt], Inr (astype_int16 a)))
      | None \<Rightarrow> detect_true_cells env directory model arr fs)"

text \<open>
  \<^verbatim>\<open>count_section\<close> from line 256 on. The lines before it decode, stitch and normalise the
  image of the section; their result \<open>arr\<close> is a parameter here, and so are the files of
  the directory. Console output and the timing are left out, except where formatting a
  message raises.
\<close>

definition count_section ::
  "environment \<Rightarrow> string \<Rightarrow> (rat array2 list \<Rightarrow> rat array2) \<Rightarrow> OutputFileType \<Rightarrow> 8 word array2
     \<Rightarrow> section_files \<Rightarrow> outcome" where
  "count_section env directory model oft arr fs =
     (if OutputFileType_any oft
      then (case obtain_true_cells env directory model arr fs of
              (cs, Inl st) \<Rightarrow>
                \<lparr> out_files = fs, out_calls = cs, out_true_cells = None, out_status = st \<rparr>
            | (cs, Inr true_cells) \<Rightarrow>
                write_outputs (env_color env) directory oft (shape arr) true_cells
                  \<lparr> out_files = fs, out_calls = cs, out_true_cells = Some true_cells,
                    out_status = Done \<rparr>)
      else \<lparr> out_files = fs, out_calls = [], out_true_cells = None, out_status = Done \<rparr>)"

text \<open>
  \<^verbatim>\<open>count_brain\<close>: the sections of a brain directory in sorted order, each given by its
  name, its image and its files. An exception of \<^verbatim>\<open>count_section\<close> is not caught, so it
  ends the loop. The result is the outcome of every section that was processed and the
  exception, if any, that ended the loop.
\<close>

fun count_brain ::
  "environment \<Rightarrow> (rat array2 list \<Rightarrow> rat array2) \<Rightarrow> OutputFileType
     \<Rightarrow> (string \<times> 8 word array2 \<times> section_files) list \<Rightarrow> outcome list \<times> error option" where
  "count_brain env model oft [] = ([], None)"
| "count_brain env model oft (section # sections) =
     (let r = count_section env (fst section) model oft (fst (snd section)) (snd (snd section)) in
      case out_status r of
        Raised e \<Rightarrow> ([r], Some e)
      | _ \<Rightarrow> (case count_brain env model oft sections of (rs, e) \<Rightarrow> (r # rs, e)))"


subsection \<open>The proposal stage in the words of the specification\<close>

text \<open>
  A pixel of the smoothed array is a candidate centre when its value equals the erosion
  over the 4 by 4 neighbourhood at that pixel and lies below the float32 difference of
  the dilation there and 0.01: the dilation less the float32 number nearest to 0.01,
  rounded to float32.
\<close>

definition candidate_center :: "rat array2 \<Rightarrow> nat \<times> nat \<Rightarrow> bool" where
  "candidate_center s p =
     (s ! fst p ! snd p = grey_erosion s 4 ! fst p ! snd p \<and>
      s ! fst p ! snd p < float32 (grey_dilation s 4 ! fst p ! snd p - float32 (1 / 100)))"

text \<open>The pixel lies where the mask, when there is one, is true.\<close>

definition in_mask :: "bool array2 option \<Rightarrow> nat \<times> nat \<Rightarrow> bool" where
  "in_mask msk p = (case msk of None \<Rightarrow> True | Some m \<Rightarrow> m ! fst p ! snd p)"

text \<open>
  The pixel \<open>(x, y)\<close> lies in the border band: \<open>x < RADIUS\<close>, \<open>x \<ge> width - RADIUS\<close>,
  \<open>y < RADIUS\<close> or \<open>y \<ge> height - RADIUS\<close>, where \<open>x\<close> runs along the first axis of
  the array, \<open>y\<close> along the second, and the two extents are those of the respective axis.
\<close>

definition in_border :: "nat \<Rightarrow> nat \<times> nat \<Rightarrow> nat \<times> nat \<Rightarrow> bool" where
  "in_border RADIUS shp p =
     (int (fst p) < int RADIUS \<or> int (fst p) \<ge> int (fst shp) - int RADIUS \<or>
      int (snd p) < int RADIUS \<or> int (snd p) \<ge> int (snd shp) - int RADIUS)"

text \<open>The pixels of an array of the given shape in row-major scan order.\<close>

definition row_major :: "nat \<times> nat \<Rightarrow> (nat \<times> nat) list" where
  "row_major shp = List.product [0..<fst shp] [0..<snd shp]"

text \<open>The mask, when there is one, is an array of the shape of the image.\<close>

definition mask_fits :: "'a array2 \<Rightarrow> bool array2 option \<Rightarrow> bool" where
  "mask_fits arr msk = (case msk of None \<Rightarrow> True | Some m \<Rightarrow> is_array2 m \<and> shape m = shape arr)"

text \<open>
  The window of side \<open>2 * RADIUS\<close> about a pixel: rows \<open>x - RADIUS\<close> to
  \<open>x + RADIUS - 1\<close>, columns \<open>y - RADIUS\<close> to \<open>y + RADIUS - 1\<close>.
\<close>

definition patch_at :: "nat \<Rightarrow> 'a array2 \<Rightarrow> nat \<times> nat \<Rightarrow> 'a array2" where
  "patch_at RADIUS arr p =
     tabulate2 (2 * RADIUS) (2 * RADIUS)
       (\<lambda>i j. arr ! (fst p - RADIUS + i) ! (snd p - RADIUS + j))"

subsection \<open>The table of coordinates in the words of the specification\<close>

text \<open>The text is an integer as one writes it: digits, after an optional minus sign.\<close>

definition integer_numeral :: "string \<Rightarrow> bool" where
  "integer_numeral s =
     (case s of
        [] \<Rightarrow> False
      | c # t \<Rightarrow> if c = CHR ''-'' then t \<noteq> [] \<and> list_all is_digit t else list_all is_digit s)"

text \<open>
  The text is a number in exponent notation with eighteen decimals: a digit, a point,
  eighteen digits, \<^verbatim>\<open>e+\<close> and the digits of the exponent.
\<close>

definition exponent_notation :: "string \<Rightarrow> bool" where
  "exponent_notation s =
     (case s of
        d # p # t \<Rightarrow>
          is_digit d \<and> p = CHR ''.'' \<and> list_all is_digit (take 18 t) \<and> length (take 18 t) = 18 \<and>
          take 2 (drop 18 t) = ''e+'' \<and> drop 20 t \<noteq> [] \<and> list_all is_digit (drop 20 t)
      | _ \<Rightarrow> False)"

text \<open>The line of the table for a candidate: its two coordinates, a comma between them.\<close>

definition table_line :: "nat \<times> nat \<Rightarrow> string" where
  "table_line p = format_18e (int (fst p)) @ '','' @ format_18e (int (snd p))"


section \<open>Properties of the embedding\<close>

subsection \<open>Floating point\<close>

lemma round_half_even_of_int: "round_half_even (of_int m) = m"
  by (simp add: round_half_even_def)

lemma bit_length_bounds:
  "0 < n \<Longrightarrow> 1 \<le> bit_length n \<and> 2 ^ nat (bit_length n - 1) \<le> n \<and> n < 2 ^ nat (bit_length n)"
proof (induction n rule: bit_length.induct)
  case (1 n)
  show ?case
  proof (cases "n = 1")
    case True
    have "bit_length 1 = 1"
      by (simp add: bit_length.simps [of 1] bit_length.simps [of 0])
    then show ?thesis using True by simp
  next
    case False
    with 1 have h: "0 < n div 2" by simp
    have ih: "1 \<le> bit_length (n div 2)" "2 ^ nat (bit_length (n div 2) - 1) \<le> n div 2"
      "n div 2 < 2 ^ nat (bit_length (n div 2))"
      using 1 h by simp_all
    have b: "bit_length n = bit_length (n div 2) + 1"
      using 1(2) by (simp add: bit_length.simps [of n])
    have n1: "nat (bit_length (n div 2)) = Suc (nat (bit_length (n div 2) - 1))"
      using ih(1) by simp
    have "2 * 2 ^ nat (bit_length (n div 2) - 1) \<le> n"
      using ih(2) by linarith
    moreover have "n < 2 * 2 ^ nat (bit_length (n div 2))"
      using ih(3) by linarith
    ultimately show ?thesis
      using ih(1) b n1 by (simp add: nat_add_distrib)
  qed
qed

text \<open>The float32 numbers nearest to 0.01 and to 0.80.\<close>

lemma float32_constants:
  "float32 (1 / 100) = 5368709 / 536870912"
  "float32 (80 / 100) = 13421773 / 16777216"
  "float32 (4 / 5) = 13421773 / 16777216"
  by code_simp+

lemma binary_exponent_of_int:
  assumes "n \<noteq> 0"
  shows "binary_exponent (of_int n) = bit_length \<bar>n\<bar> - 1"
proof -
  have "(1 :: rat) \<le> \<bar>of_int n\<bar>"
    using assms by (simp flip: of_int_abs)
  moreover have "\<lfloor>\<bar>of_int n :: rat\<bar>\<rfloor> = \<bar>n\<bar>"
    by (simp flip: of_int_abs)
  ultimately show ?thesis
    by (simp add: binary_exponent_def)
qed

lemma bit_length_le:
  assumes "0 < n" "n \<le> 2 ^ p"
  shows "bit_length n \<le> int p + 1"
proof (rule ccontr)
  assume "\<not> bit_length n \<le> int p + 1"
  then have "Suc p \<le> nat (bit_length n - 1)" by simp
  then have "(2 :: int) ^ Suc p \<le> 2 ^ nat (bit_length n - 1)"
    by (rule power_increasing) simp
  then have "(2 :: int) ^ Suc p \<le> n"
    using bit_length_bounds [OF assms(1)] by simp
  moreover have "(0 :: int) < 2 ^ p" by simp
  ultimately show False using assms(2) by simp
qed

text \<open>
  A format of \<open>p\<close> significant bits represents every integer of magnitude up to \<open>2\<^sup>p\<close>:
  float32 those up to \<open>2\<^sup>2\<^sup>4\<close>, float64 those up to \<open>2\<^sup>5\<^sup>3\<close>.
\<close>

lemma round_to_format_of_int:
  assumes "0 < p" "emin \<le> 0" "\<bar>n\<bar> \<le> 2 ^ p"
  shows "round_to_format p emin (of_int n) = of_int n"
proof (cases "n = 0")
  case True
  then show ?thesis by (simp add: round_to_format_def)
next
  case False
  define b where "b = bit_length \<bar>n\<bar>"
  have pos: "0 < \<bar>n\<bar>" using False by simp
  note bb = bit_length_bounds [OF pos, folded b_def]
  have e: "binary_exponent (of_int n) = b - 1"
    using binary_exponent_of_int [OF False] by (simp add: b_def)
  have ub: "b \<le> int p + 1"
    using bit_length_le [OF pos assms(3)] by (simp add: b_def)
  have m: "max (b - 1) emin = b - 1" using bb assms(2) by simp
  have r: "round_to_format p emin (of_int n) =
           of_int (round_half_even (of_int n / pow2 (b - int p))) * pow2 (b - int p)"
    using False by (simp add: round_to_format_def e m Let_def)
  show ?thesis
  proof (cases "b \<le> int p")
    case True
    then have q: "pow2 (b - int p) = 1 / 2 ^ nat (int p - b)"
      by (cases "b = int p") (simp_all add: pow2_def)
    have "(of_int n :: rat) / pow2 (b - int p) = of_int (n * 2 ^ nat (int p - b))"
      by (simp add: q)
    then have "round_half_even (of_int n / pow2 (b - int p)) = n * 2 ^ nat (int p - b)"
      by (simp only: round_half_even_of_int)
    then show ?thesis
      by (simp add: r q)
  next
    case False
    then have bp: "b = int p + 1" using ub by simp
    then have "2 ^ p \<le> \<bar>n\<bar>" using bb by (simp add: nat_add_distrib)
    then have n: "\<bar>n\<bar> = 2 ^ p" using assms(3) by simp
    have q: "pow2 (b - int p) = 2" by (simp add: bp pow2_def)
    obtain k where k: "p = Suc k" using assms(1) by (cases p) simp_all
    have "n = 2 ^ p \<or> n = - (2 ^ p)" using n by linarith
    then have ev: "n = 2 * (n div 2)" unfolding k by auto
    have "(of_int n :: rat) / 2 = of_int (n div 2)"
      by (subst ev) simp
    then have "round_half_even (of_int n / pow2 (b - int p)) = n div 2"
      by (simp only: q round_half_even_of_int)
    then show ?thesis
      using ev by (simp add: r q)
  qed
qed

lemma float32_of_int:
  assumes "\<bar>n\<bar> \<le> 2 ^ 24"
  shows "float32 (of_int n) = of_int n"
  unfolding float32_def using assms by (intro round_to_format_of_int) simp_all

lemma float64_of_int:
  assumes "\<bar>n\<bar> \<le> 2 ^ 53"
  shows "float64 (of_int n) = of_int n"
  unfolding float64_def using assms by (intro round_to_format_of_int) simp_all

lemma to_float64_of_int:
  assumes "\<bar>n\<bar> \<le> 2 ^ 53"
  shows "to_float64 (of_int n) = Finite (of_int n)"
proof (cases "n = 0")
  case True
  then show ?thesis
    using float64_of_int [of 0] by (simp add: to_float64_def)
next
  case False
  then have pos: "0 < \<bar>n\<bar>" by simp
  have "bit_length \<bar>n\<bar> \<le> 54"
    using bit_length_le [OF pos assms] by simp
  then have "binary_exponent (of_int n) < 1024"
    using binary_exponent_of_int [OF False] by simp
  then show ?thesis
    using float64_of_int [OF assms] by (simp add: to_float64_def Let_def)
qed

lemma length_tabulate_row [simp]: "length (tabulate_row f w i) = w"
  by (simp add: tabulate_row_def)

lemma nth_tabulate_row [simp]: "j < w \<Longrightarrow> tabulate_row f w i ! j = f i j"
  by (simp add: tabulate_row_def)

lemma length_tabulate2 [simp]: "length (tabulate2 h w f) = h"
  by (simp add: tabulate2_def)

lemma nrows_tabulate2 [simp]: "nrows (tabulate2 h w f) = h"
  by (simp add: nrows_def)

lemma nth_tabulate2_row [simp]: "i < h \<Longrightarrow> tabulate2 h w f ! i = tabulate_row f w i"
  by (simp add: tabulate2_def)

lemma nth_tabulate2: "i < h \<Longrightarrow> j < w \<Longrightarrow> tabulate2 h w f ! i ! j = f i j"
  by simp

lemma ncols_tabulate2: "ncols (tabulate2 h w f) = (if h = 0 then 0 else w)"
  by (cases h) (simp_all add: ncols_def tabulate2_def upt_conv_Cons del: upt_Suc)

lemma is_array2_tabulate2 [simp]: "is_array2 (tabulate2 h w f)"
  by (auto simp: is_array2_def list_all_length ncols_tabulate2)

lemma shape_tabulate2: "shape (tabulate2 h w f) = (h, if h = 0 then 0 else w)"
  by (simp add: shape_def ncols_tabulate2)

lemma tabulate2_cong:
  assumes "\<And>i j. i < h \<Longrightarrow> j < w \<Longrightarrow> f i j = g i j"
  shows "tabulate2 h w f = tabulate2 h w g"
  using assms by (auto simp: tabulate2_def tabulate_row_def)

lemma tabulate2_no_rows [simp]: "tabulate2 0 w f = []"
  by (simp add: tabulate2_def)

lemma is_array2_row: "is_array2 a \<Longrightarrow> i < length a \<Longrightarrow> length (a ! i) = ncols a"
  by (simp add: is_array2_def list_all_length)

lemma array2_eq_tabulate2:
  assumes "is_array2 a"
  shows "a = tabulate2 (nrows a) (ncols a) (\<lambda>i j. a ! i ! j)"
proof (rule nth_equalityI)
  show "length a = length (tabulate2 (nrows a) (ncols a) (\<lambda>i j. a ! i ! j))"
    by (simp add: nrows_def)
next
  fix i assume i: "i < length a"
  have "a ! i = tabulate_row (\<lambda>i j. a ! i ! j) (ncols a) i"
    by (rule nth_equalityI) (simp_all add: is_array2_row [OF assms i])
  then show "a ! i = tabulate2 (nrows a) (ncols a) (\<lambda>i j. a ! i ! j) ! i"
    using i by (simp add: nrows_def)
qed

lemma map_map_tabulate2: "map (map g) (tabulate2 h w f) = tabulate2 h w (\<lambda>i j. g (f i j))"
  by (simp add: tabulate2_def tabulate_row_def)

lemma elementwise_tabulate2:
  "elementwise f (tabulate2 h w g) (tabulate2 h w k) = tabulate2 h w (\<lambda>i j. f (g i j) (k i j))"
proof (rule nth_equalityI)
  show "length (elementwise f (tabulate2 h w g) (tabulate2 h w k)) =
        length (tabulate2 h w (\<lambda>i j. f (g i j) (k i j)))"
    by (simp add: elementwise_def)
next
  fix i assume "i < length (elementwise f (tabulate2 h w g) (tabulate2 h w k))"
  then have i: "i < h" by (simp add: elementwise_def)
  have "map2 f (tabulate_row g w i) (tabulate_row k w i) = tabulate_row (\<lambda>i j. f (g i j) (k i j)) w i"
    by (rule nth_equalityI) simp_all
  then show "elementwise f (tabulate2 h w g) (tabulate2 h w k) ! i =
             tabulate2 h w (\<lambda>i j. f (g i j) (k i j)) ! i"
    using i by (simp add: elementwise_def)
qed

lemma filter_product:
  "filter P (List.product xs ys) = concat (map (\<lambda>x. map (Pair x) (filter (\<lambda>y. P (x, y)) ys)) xs)"
  by (induction xs) (simp_all add: filter_map comp_def)

lemma np_where_tabulate2:
  "np_where (tabulate2 h w f) = filter (\<lambda>(i, j). f i j) (List.product [0..<h] [0..<w])"
proof -
  have eq: "map (\<lambda>i. map (Pair i) (filter (\<lambda>j. tabulate2 h w f ! i ! j) [0..<length (tabulate2 h w f ! i)])) [0..<h]
      = map (\<lambda>i. map (Pair i) (filter (\<lambda>j. f i j) [0..<w])) [0..<h]"
    by (rule map_cong [OF refl]) (auto intro!: arg_cong [where f = "map (Pair _)"] filter_cong)
  show ?thesis
    unfolding np_where_def length_tabulate2 filter_product eq by simp
qed

lemma fill_rows_tabulate2:
  "fill_rows rs c (tabulate2 h w f) = tabulate2 h w (\<lambda>i j. if in_slice rs i then c else f i j)"
  by (cases "h = 0") (auto simp: fill_rows_def nrows_def ncols_tabulate2 intro!: tabulate2_cong)

lemma fill_cols_tabulate2:
  "fill_cols cs c (tabulate2 h w f) = tabulate2 h w (\<lambda>i j. if in_slice cs j then c else f i j)"
  by (cases "h = 0") (auto simp: fill_cols_def nrows_def ncols_tabulate2 intro!: tabulate2_cong)

lemma broadcast_to_same:
  assumes "is_array2 a"
  shows "broadcast_to (shape a) a = a"
proof -
  have "broadcast_to (shape a) a = tabulate2 (nrows a) (ncols a) (\<lambda>i j. a ! i ! j)"
    unfolding broadcast_to_def shape_def fst_conv snd_conv
    by (rule tabulate2_cong) auto
  then show ?thesis
    using array2_eq_tabulate2 [OF assms] by simp
qed

lemma np_binop_same_shape:
  assumes "is_array2 a" "is_array2 b" "shape b = shape a"
  shows "np_binop f a b = Inr (elementwise f a b)"
proof -
  have "broadcast_shapes (shape a) (shape b) = Some (shape a)"
    by (simp add: assms broadcast_shapes_def broadcast_dim_def)
  then show ?thesis
    using broadcast_to_same [OF assms(1)] broadcast_to_same [OF assms(2)] assms(3)
    by (simp add: np_binop_def elementwise_def)
qed

lemma ncols_no_rows: "nrows a = 0 \<Longrightarrow> ncols a = 0"
  by (cases a) (simp_all add: nrows_def ncols_def)

lemma ncols_tabulate2_same [simp]: "ncols (tabulate2 (nrows a) (ncols a) f) = ncols a"
  by (simp add: ncols_tabulate2 ncols_no_rows)

lemma shape_tabulate2_same [simp]: "shape (tabulate2 (nrows a) (ncols a) f) = shape a"
  by (simp add: shape_def)

lemma nrows_fill_rows [simp]: "nrows (fill_rows rs c a) = nrows a"
  by (simp add: fill_rows_def)

lemma ncols_fill_rows [simp]: "ncols (fill_rows rs c a) = ncols a"
  by (simp add: fill_rows_def)

lemma nrows_fill_cols [simp]: "nrows (fill_cols cs c a) = nrows a"
  by (simp add: fill_cols_def)

lemma ncols_fill_cols [simp]: "ncols (fill_cols cs c a) = ncols a"
  by (simp add: fill_cols_def)

lemma elementwise_left:
  assumes "is_array2 a"
  shows "elementwise f a (tabulate2 (nrows a) (ncols a) g) =
         tabulate2 (nrows a) (ncols a) (\<lambda>i j. f (a ! i ! j) (g i j))"
proof -
  have "elementwise f (tabulate2 (nrows a) (ncols a) (\<lambda>i j. a ! i ! j)) (tabulate2 (nrows a) (ncols a) g) =
        tabulate2 (nrows a) (ncols a) (\<lambda>i j. f (a ! i ! j) (g i j))"
    by (rule elementwise_tabulate2)
  then show ?thesis
    using array2_eq_tabulate2 [OF assms] by simp
qed

lemma elementwise_right:
  assumes "is_array2 m" "nrows m = h" "ncols m = w"
  shows "elementwise f (tabulate2 h w g) m = tabulate2 h w (\<lambda>i j. f (g i j) (m ! i ! j))"
proof -
  have "elementwise f (tabulate2 h w g) (tabulate2 h w (\<lambda>i j. m ! i ! j)) =
        tabulate2 h w (\<lambda>i j. f (g i j) (m ! i ! j))"
    by (rule elementwise_tabulate2)
  then show ?thesis
    using array2_eq_tabulate2 [OF assms(1)] assms(2,3) by simp
qed

lemma in_slice_head: "i < n \<Longrightarrow> in_slice (slice_bounds n None (Some (int r))) i = (i < r)"
  by (auto simp: in_slice_def slice_bounds_def slice_index_def)

lemma in_slice_tail:
  "i < n \<Longrightarrow> in_slice (slice_bounds n (Some (- int r)) None) i = (r = 0 \<or> int n - int r \<le> int i)"
  by (auto simp: in_slice_def slice_bounds_def slice_index_def)

text \<open>The array of candidates before the mask and the border are applied.\<close>

lemma candidate_array:
  assumes "is_array2 arr"
  shows "elementwise (\<and>) (elementwise (=) arr (grey_erosion arr 4))
           (elementwise (<) arr (map (map subtract_01) (grey_dilation arr 4))) =
         tabulate2 (nrows arr) (ncols arr) (\<lambda>i j. candidate_center arr (i, j))"
proof -
  have "elementwise (\<and>) (elementwise (=) arr (grey_erosion arr 4))
           (elementwise (<) arr (map (map subtract_01) (grey_dilation arr 4))) =
        tabulate2 (nrows arr) (ncols arr)
          (\<lambda>i j. arr ! i ! j = minimum_at (erosion_offsets 4) arr i j \<and>
                 arr ! i ! j < subtract_01 (maximum_at (dilation_offsets 4) arr i j))"
    by (simp add: grey_erosion_def grey_dilation_def map_map_tabulate2
        elementwise_left [OF assms] elementwise_tabulate2)
  also have "\<dots> = tabulate2 (nrows arr) (ncols arr) (\<lambda>i j. candidate_center arr (i, j))"
    by (rule tabulate2_cong)
      (simp add: candidate_center_def grey_erosion_def grey_dilation_def subtract_01_def)
  finally show ?thesis .
qed

text \<open>
  The difference is rounded: about a dilation of 100.01 (as a float32 number) it is 100,
  so that a pixel of value 100 there, although more than 0.01 below the dilation, is no
  candidate.
\<close>

lemma subtract_01_rounds:
  "float32 (10001 / 100) = 13108511 / 131072 \<and>
   100 < 13108511 / 131072 - (1 / 100 :: rat) \<and>
   subtract_01 (13108511 / 131072) = 100 \<and>
   detect_local_minima 1
     [[13108511 / 131072, 13108511 / 131072, 13108511 / 131072],
      [13108511 / 131072, 100, 13108511 / 131072],
      [13108511 / 131072, 13108511 / 131072, 13108511 / 131072]] None = Inr []"
  by code_simp

lemma masked_array:
  assumes "is_array2 arr" "mask_fits arr msk"
  shows "(case msk of None \<Rightarrow> Inr (tabulate2 (nrows arr) (ncols arr) c)
          | Some m \<Rightarrow> np_binop (\<and>) (tabulate2 (nrows arr) (ncols arr) c) m) =
         Inr (tabulate2 (nrows arr) (ncols arr) (\<lambda>i j. c i j \<and> in_mask msk (i, j)))"
proof (cases msk)
  case None
  then show ?thesis by (simp add: in_mask_def)
next
  case (Some m)
  with assms(2) have m: "is_array2 m" "shape m = shape arr"
    by (simp_all add: mask_fits_def)
  then have "nrows m = nrows arr" "ncols m = ncols arr"
    by (simp_all add: shape_def)
  moreover have "np_binop (\<and>) (tabulate2 (nrows arr) (ncols arr) c) m =
      Inr (elementwise (\<and>) (tabulate2 (nrows arr) (ncols arr) c) m)"
    by (rule np_binop_same_shape) (simp_all add: m)
  ultimately show ?thesis
    using Some m by (simp add: elementwise_right in_mask_def)
qed

lemma border_cleared:
  "np_where
     (fill_cols (slice_bounds (ncols a) (Some (- int r)) None) False
       (fill_cols (slice_bounds (ncols a) None (Some (int r))) False
         (fill_rows (slice_bounds (nrows a) (Some (- int r)) None) False
           (fill_rows (slice_bounds (nrows a) None (Some (int r))) False
              (tabulate2 (nrows a) (ncols a) c))))) =
   filter (\<lambda>p. c (fst p) (snd p) \<and> 0 < r \<and> \<not> in_border r (shape a) p) (row_major (shape a))"
  unfolding fill_rows_tabulate2 fill_cols_tabulate2 np_where_tabulate2 row_major_def shape_def fst_conv snd_conv
  by (auto intro!: filter_cong simp: in_slice_head in_slice_tail in_border_def)

lemma detect_local_minima_eq:
  assumes "is_array2 arr" "mask_fits arr msk"
  shows "detect_local_minima RADIUS arr msk =
         Inr (filter (\<lambda>p. (candidate_center arr p \<and> in_mask msk p) \<and> 0 < RADIUS \<and> \<not> in_border RADIUS (shape arr) p)
                (row_major (shape arr)))"
  unfolding detect_local_minima_def Let_def candidate_array [OF assms(1)] masked_array [OF assms]
  by (simp add: border_cleared)
lemma is_array2_astype_float32 [simp]: "is_array2 (astype_float32 arr) = is_array2 arr"
  by (cases arr) (simp_all add: is_array2_def astype_float32_def ncols_def list_all_iff)

lemma shape_astype_float32 [simp]: "shape (astype_float32 arr) = shape arr"
  by (cases arr) (simp_all add: shape_def nrows_def ncols_def astype_float32_def)

lemma slice_bounds_inside:
  "r \<le> x \<Longrightarrow> x + r \<le> n \<Longrightarrow>
   slice_bounds n (Some (int x - int r)) (Some (int x + int r)) = (x - r, x + r)"
  by (auto simp: slice_bounds_def slice_index_def)

lemma slice2_inside:
  assumes "is_array2 a" "r0 + h \<le> nrows a" "c0 + w \<le> ncols a"
  shows "slice2 (r0, r0 + h) (c0, c0 + w) a = tabulate2 h w (\<lambda>i j. a ! (r0 + i) ! (c0 + j))"
proof (rule nth_equalityI)
  show "length (slice2 (r0, r0 + h) (c0, c0 + w) a) = length (tabulate2 h w (\<lambda>i j. a ! (r0 + i) ! (c0 + j)))"
    using assms(2) by (simp add: slice2_def slice1_def nrows_def)
next
  fix i assume "i < length (slice2 (r0, r0 + h) (c0, c0 + w) a)"
  then have i: "i < h" by (simp add: slice2_def slice1_def)
  then have len: "length (a ! (r0 + i)) = ncols a"
    using assms(1,2) by (simp add: is_array2_row nrows_def)
  have "slice1 (c0, c0 + w) (a ! (r0 + i)) = tabulate_row (\<lambda>i j. a ! (r0 + i) ! (c0 + j)) w i"
    by (rule nth_equalityI) (use len assms(3) in \<open>simp_all add: slice1_def\<close>)
  then show "slice2 (r0, r0 + h) (c0, c0 + w) a ! i = tabulate2 h w (\<lambda>i j. a ! (r0 + i) ! (c0 + j)) ! i"
    using i assms(2) by (simp add: slice2_def slice1_def nrows_def)
qed

text \<open>Away from the border the slice of a patch is the full window about the pixel.\<close>

lemma patch_slice_inside:
  assumes "is_array2 arr" "\<not> in_border RADIUS (shape arr) p"
  shows "patch_slice RADIUS arr p = patch_at RADIUS arr p"
proof -
  from assms(2) have b: "RADIUS \<le> fst p" "fst p + RADIUS \<le> nrows arr"
    "RADIUS \<le> snd p" "snd p + RADIUS \<le> ncols arr"
    by (auto simp: in_border_def shape_def)
  have "slice2 (fst p - RADIUS, (fst p - RADIUS) + 2 * RADIUS) (snd p - RADIUS, (snd p - RADIUS) + 2 * RADIUS) arr =
        tabulate2 (2 * RADIUS) (2 * RADIUS) (\<lambda>i j. arr ! (fst p - RADIUS + i) ! (snd p - RADIUS + j))"
    by (rule slice2_inside) (use assms(1) b in auto)
  moreover have "fst p - RADIUS + 2 * RADIUS = fst p + RADIUS" "snd p - RADIUS + 2 * RADIUS = snd p + RADIUS"
    using b by auto
  ultimately show ?thesis
    using b by (simp add: patch_slice_def patch_at_def slice_bounds_inside)
qed

lemma assign_whole:
  assumes "0 < n"
  shows "assign_slice2 (slice_bounds n None None) (slice_bounds n None None)
           (tabulate2 n n f) (tabulate2 n n z) = Inr (tabulate2 n n f)"
proof -
  have "tabulate2 n n (\<lambda>i j. if in_slice (0, n) i \<and> in_slice (0, n) j
            then broadcast_to (n, n) (tabulate2 n n f) ! (i - fst (0, n)) ! (j - fst (0, n))
            else tabulate2 n n z ! i ! j) =
        tabulate2 n n f"
    by (rule tabulate2_cong) (auto simp: in_slice_def broadcast_to_def ncols_tabulate2)
  then show ?thesis
    using assms by (simp add: assign_slice2_def slice_bounds_def ncols_tabulate2)
qed

lemma astype_float32_tabulate2:
  "astype_float32 (tabulate2 h w f) = tabulate2 h w (\<lambda>i j. of_nat (unat (f i j)))"
  by (simp add: astype_float32_def tabulate2_def tabulate_row_def)

lemma extract_patches_inside:
  assumes "is_array2 arr" "0 < RADIUS" "list_all (\<lambda>p. \<not> in_border RADIUS (shape arr) p) ps"
  shows "extract_patches RADIUS (2 * RADIUS) arr ps =
         Inr (map (\<lambda>p. astype_float32 (patch_at RADIUS arr p)) ps)"
  using assms(3)
proof (induction ps)
  case Nil
  then show ?case by simp
next
  case (Cons p ps)
  then have "patch_slice RADIUS arr p = patch_at RADIUS arr p"
    using patch_slice_inside [OF assms(1)] by simp
  moreover have "assign_slice2 (slice_bounds (2 * RADIUS) None None) (slice_bounds (2 * RADIUS) None None)
      (astype_float32 (patch_at RADIUS arr p)) (tabulate2 (2 * RADIUS) (2 * RADIUS) (\<lambda>_ _. 0)) =
      Inr (astype_float32 (patch_at RADIUS arr p))"
    unfolding patch_at_def astype_float32_tabulate2 by (rule assign_whole) (use assms(2) in simp)
  ultimately show ?case
    using Cons by simp
qed

text \<open>The candidates of the proposal stage, as the code computes them.\<close>

lemma local_minima_generate_points_eq:
  assumes "is_array2 arr" "is_array2 (gaussian_filter (astype_float32 arr))"
    and "shape (gaussian_filter (astype_float32 arr)) = shape arr"
    and "mask_fits arr msk" "SIZE = 2 * RADIUS"
  shows "local_minima_generate_points gaussian_filter RADIUS SIZE arr msk =
         (let minima = filter (\<lambda>p. (candidate_center (gaussian_filter (astype_float32 arr)) p \<and> in_mask msk p) \<and>
                                    0 < RADIUS \<and> \<not> in_border RADIUS (shape arr) p)
                          (row_major (shape arr))
          in if minima = [] then Inl AssertionError
             else Inr (map (\<lambda>p. astype_float32 (patch_at RADIUS arr p)) minima, minima))"
proof -
  let ?fuzzy = "gaussian_filter (astype_float32 arr)"
  let ?minima = "filter (\<lambda>p. (candidate_center ?fuzzy p \<and> in_mask msk p) \<and>
                                    0 < RADIUS \<and> \<not> in_border RADIUS (shape arr) p)
                          (row_major (shape arr))"
  have "mask_fits ?fuzzy msk"
    using assms(3,4) by (simp add: mask_fits_def split: option.splits)
  then have d: "detect_local_minima RADIUS ?fuzzy msk = Inr ?minima"
    using detect_local_minima_eq [OF assms(2), of msk RADIUS] assms(3) by simp
  show ?thesis
  proof (cases "?minima = []")
    case True
    then show ?thesis
      by (simp add: local_minima_generate_points_def d Let_def)
  next
    case False
    then have r: "0 < RADIUS"
      by (auto simp: filter_empty_conv)
    have "list_all (\<lambda>p. \<not> in_border RADIUS (shape arr) p) ?minima"
      by (simp add: list_all_iff)
    then have "extract_patches RADIUS (2 * RADIUS) arr ?minima =
               Inr (map (\<lambda>p. astype_float32 (patch_at RADIUS arr p)) ?minima)"
      using extract_patches_inside [of arr RADIUS ?minima] assms(1) r by simp
    then show ?thesis
      using False by (simp add: local_minima_generate_points_def d assms(5) Let_def)
  qed
qed

lemma local_minima_generate_points_Inr:
  assumes "local_minima_generate_points gaussian_filter RADIUS SIZE arr msk = Inr (X, minima)"
  shows "detect_local_minima RADIUS (gaussian_filter (astype_float32 arr)) msk = Inr minima"
    and "minima \<noteq> []"
    and "extract_patches RADIUS SIZE arr minima = Inr X"
  using assms
  by (auto simp: local_minima_generate_points_def Let_def split: sum.splits if_splits)


lemma concat_map_map: "concat (map (map f) xss) = map f (concat xss)"
  by (induction xss) simp_all

lemma word8_Min_0: "finite A \<Longrightarrow> (0 :: 8 word) \<in> A \<Longrightarrow> Min A = 0"
  by (rule Min_eqI) simp_all

lemma word8_Max_255: "finite A \<Longrightarrow> (255 :: 8 word) \<in> A \<Longrightarrow> Max A = 255"
proof (rule Max_eqI)
  fix y :: "8 word"
  have "unat y < 2 ^ 8" using unsigned_less [of y] by simp
  then show "y \<le> 255" by (simp add: word_le_nat_alt)
qed simp_all

lemma exact_on_integers_float32: "exact_on_integers float32"
  by (simp add: exact_on_integers_def float32_of_int)

lemma rescale_lowest:
  assumes "exact_on_integers rnd" "lo = of_int a" "hi = of_int b" "a < b" "b - a \<le> 2 ^ 24"
  shows "to_uint8 rnd nonfinite (rescale rnd lo hi lo) = 0"
proof -
  have r0: "rnd 0 = 0"
    using assms(1) by (auto simp: exact_on_integers_def dest: spec [of _ 0])
  have "rnd (hi - lo) = of_int (b - a)"
    using assms by (auto simp: exact_on_integers_def simp flip: of_int_diff)
  then have "rnd (hi - lo) \<noteq> 0"
    using assms(4) by simp
  then show ?thesis
    by (simp add: rescale_def np_divide_def to_uint8_def times_255_def astype_uint8_def truncate_to_int_def r0)
qed

lemma rescale_highest:
  assumes "exact_on_integers rnd" "lo = of_int a" "hi = of_int b" "a < b" "b - a \<le> 2 ^ 24"
  shows "to_uint8 rnd nonfinite (rescale rnd lo hi hi) = 255"
proof -
  have r1: "rnd 1 = 1" and r255: "rnd 255 = 255"
    using assms(1) by (auto simp: exact_on_integers_def dest: spec [of _ 1] spec [of _ 255])
  have d: "rnd (hi - lo) = of_int (b - a)"
    using assms by (auto simp: exact_on_integers_def simp flip: of_int_diff)
  then have "rnd (hi - lo) \<noteq> 0"
    using assms(4) by simp
  then show ?thesis
    by (simp add: rescale_def np_divide_def to_uint8_def times_255_def astype_uint8_def truncate_to_int_def r1 r255)
qed

lemma rescale_flat:
  assumes "exact_on_integers rnd"
  shows "to_uint8 rnd nonfinite (rescale rnd v v v) = nonfinite NaN"
proof -
  have "rnd 0 = 0"
    using assms by (auto simp: exact_on_integers_def dest: spec [of _ 0])
  then show ?thesis
    by (simp add: rescale_def np_divide_def to_uint8_def times_255_def astype_uint8_def)
qed

lemma int16_to_float32_range:
  "int16_to_float32 v = of_int (sint v) \<and> - (2 ^ 15) \<le> sint v \<and> sint v < 2 ^ 15"
  unfolding int16_to_float32_def using sint_range_size [of v] by (simp add: word_size)

lemma normalize_image_unfold:
  assumes "concat img \<noteq> []"
  shows "normalize_image nonfinite img =
         Inr (map (map (\<lambda>v. to_uint8 float32 nonfinite
                (rescale float32 (Min (int16_to_float32 ` set (concat img)))
                   (Max (int16_to_float32 ` set (concat img))) (int16_to_float32 v)))) img)"
  using assms by (simp add: normalize_image_def Let_def concat_map_map comp_def)

text \<open>Normalisation of an image that is not flat: the result holds 0 and 255.\<close>

lemma normalize_image_range:
  assumes "concat img \<noteq> []"
    and "Min (int16_to_float32 ` set (concat img)) < Max (int16_to_float32 ` set (concat img))"
  shows "\<exists>out. normalize_image nonfinite img = Inr out \<and> shape out = shape img \<and>
           Min (set (concat out)) = 0 \<and> Max (set (concat out)) = 255"
proof -
  let ?V = "int16_to_float32 ` set (concat img)"
  let ?g = "\<lambda>v. to_uint8 float32 nonfinite (rescale float32 (Min ?V) (Max ?V) (int16_to_float32 v))"
  let ?out = "map (map ?g) img"
  have fin: "finite ?V" and ne: "?V \<noteq> {}"
    using assms(1) by auto
  obtain vl where vl: "vl \<in> set (concat img)" "Min ?V = int16_to_float32 vl"
    using Min_in [OF fin ne] by auto
  obtain vh where vh: "vh \<in> set (concat img)" "Max ?V = int16_to_float32 vh"
    using Max_in [OF fin ne] by auto
  have lo: "Min ?V = of_int (sint vl)" and hi: "Max ?V = of_int (sint vh)"
    using vl vh int16_to_float32_range by auto
  have lt: "sint vl < sint vh"
    using assms(2) unfolding lo hi by (simp only: of_int_less_iff)
  have d: "sint vh - sint vl \<le> 2 ^ 24"
    using int16_to_float32_range [of vl] int16_to_float32_range [of vh] by simp
  have "?g vl = 0"
    using rescale_lowest [OF exact_on_integers_float32 lo hi lt d] vl(2) by simp
  then have z: "0 \<in> set (concat ?out)"
    using vl(1) by (force simp: concat_map_map)
  have "?g vh = 255"
    using rescale_highest [OF exact_on_integers_float32 lo hi lt d] vh(2) by simp
  then have m: "255 \<in> set (concat ?out)"
    using vh(1) by (force simp: concat_map_map)
  have "shape ?out = shape img"
    by (cases img) (simp_all add: shape_def nrows_def ncols_def)
  then show ?thesis
    using normalize_image_unfold [OF assms(1)] word8_Min_0 [OF _ z] word8_Max_255 [OF _ m]
    by simp
qed

text \<open>Normalisation of a flat image: every sample is the cast of NaN, and nothing is raised.\<close>

lemma normalize_image_flat:
  assumes "concat img \<noteq> []"
    and "Min (int16_to_float32 ` set (concat img)) = Max (int16_to_float32 ` set (concat img))"
  shows "normalize_image nonfinite img = Inr (map (map (\<lambda>_. nonfinite NaN)) img)"
proof -
  let ?V = "int16_to_float32 ` set (concat img)"
  have fin: "finite ?V" by simp
  have all: "int16_to_float32 v = Min ?V" if "v \<in> set (concat img)" for v
  proof -
    have "Min ?V \<le> int16_to_float32 v" "int16_to_float32 v \<le> Max ?V"
      using that fin by (auto intro: Min_le Max_ge)
    then show ?thesis using assms(2) by simp
  qed
  have "map (map (\<lambda>v. to_uint8 float32 nonfinite (rescale float32 (Min ?V) (Max ?V) (int16_to_float32 v)))) img =
        map (map (\<lambda>_. nonfinite NaN)) img"
  proof (intro map_cong refl)
    fix r v assume "r \<in> set img" "v \<in> set r"
    then have "v \<in> set (concat img)" by auto
    then have "int16_to_float32 v = Min ?V" by (rule all)
    then show "to_uint8 float32 nonfinite (rescale float32 (Min ?V) (Max ?V) (int16_to_float32 v)) = nonfinite NaN"
      using rescale_flat [OF exact_on_integers_float32] assms(2) by simp
  qed
  then show ?thesis
    using normalize_image_unfold [OF assms(1)] by simp
qed

text \<open>
  The array of an image of one band with samples from 0 to 65535 is flat only when the
  image is.
\<close>

lemma file_to_array_grey:
  assumes "concat a \<noteq> []" "\<forall>v \<in> set (concat a). 0 \<le> v \<and> v < 2 ^ 16"
    and "Min (set (concat a)) < Max (set (concat a))"
  shows "\<exists>img. file_to_array nonfinite_short (Grey a) = Inr img \<and> shape img = shape a \<and>
           concat img \<noteq> [] \<and>
           Min (int16_to_float32 ` set (concat img)) < Max (int16_to_float32 ` set (concat img))"
proof -
  let ?img = "map (map word_of_int) a :: 16 word array2"
  let ?V = "int16_to_float32 ` set (concat ?img)"
  define lo where "lo = Min (set (concat a))"
  define hi where "hi = Max (set (concat a))"
  have mem: "lo \<in> set (concat a)" "hi \<in> set (concat a)"
    unfolding lo_def hi_def using assms(1) by (simp_all del: set_concat)
  have c: "concat ?img = map word_of_int (concat a)"
    by (simp add: concat_map_map)
  have ne: "concat ?img \<noteq> []"
    using assms(1) unfolding c by simp
  have r: "0 \<le> lo \<and> lo < 2 ^ 16" "0 \<le> hi \<and> hi < 2 ^ 16"
    using mem assms(2) by blast+
  have u: "uint (word_of_int lo :: 16 word) = lo" "uint (word_of_int hi :: 16 word) = hi"
    using r by (simp_all add: uint_word_of_int)
  have lt: "lo < hi"
    using assms(3) by (simp add: lo_def hi_def)
  have "(word_of_int lo :: 16 word) \<noteq> word_of_int hi"
  proof
    assume "(word_of_int lo :: 16 word) = word_of_int hi"
    then have "lo = hi" using u by metis
    then show False using lt by simp
  qed
  moreover have "x = y" if "int16_to_float32 x = int16_to_float32 y" for x y
  proof -
    have "sint x = sint y"
      using that by (simp only: int16_to_float32_def of_int_eq_iff)
    then show ?thesis
      by (rule signed_word_eqI)
  qed
  ultimately have d: "int16_to_float32 (word_of_int lo) \<noteq> int16_to_float32 (word_of_int hi)"
    by blast
  have in_V: "int16_to_float32 (word_of_int lo) \<in> ?V" "int16_to_float32 (word_of_int hi) \<in> ?V"
    using mem unfolding c by auto
  have fin: "finite ?V" by simp
  have "Min ?V \<noteq> Max ?V"
  proof
    assume eq: "Min ?V = Max ?V"
    have "x = Min ?V" if "x \<in> ?V" for x
      using Min_le [OF fin that] Max_ge [OF fin that] eq by simp
    then show False using in_V d by metis
  qed
  moreover have "Min ?V \<le> Max ?V"
    using in_V(1) fin by (meson Max_ge Min_le order_trans)
  ultimately have "Min ?V < Max ?V" by simp
  moreover have "shape ?img = shape a"
    by (cases a) (simp_all add: shape_def nrows_def ncols_def)
  ultimately show ?thesis
    using ne by (simp add: file_to_array_def)
qed

text \<open>
  An image of several bands that is not flat can have a flat array: the sums 318 and 319
  of the bands of its two pixels are both scaled to 254, the product of 319 and the
  float64 quotient of 255 and 319 being a little less than 255.
\<close>

lemma file_to_array_flattens:
  "file_to_array nonfinite_short (Bands [[[106, 106, 106], [106, 106, 107]]]) = Inr [[254, 254]]"
  by code_simp

lemma boolean_index_nths:
  "length bs = length xs \<Longrightarrow> map fst (filter snd (zip xs bs)) = nths xs {i. i < length bs \<and> bs ! i}"
proof (induction xs arbitrary: bs)
  case Nil
  then show ?case by simp
next
  case (Cons x xs)
  then obtain b bs' where bs: "bs = b # bs'" "length bs' = length xs"
    by (cases bs) auto
  have "{j. Suc j \<in> {i. i < length bs \<and> bs ! i}} = {i. i < length bs' \<and> bs' ! i}"
    using bs by auto
  then show ?case
    using Cons.IH [OF bs(2)] bs by (simp add: nths_Cons)
qed

lemma select_true_cells_eq:
  assumes "length output = length COMs" "list_all (\<lambda>row. row \<noteq> []) output"
  shows "select_true_cells COMs output =
         Inr (Array2 (map coordinates
                (nths COMs {i. i < length output \<and> float32 (80 / 100) < hd (output ! i)})))"
proof -
  have "{i. i < length (map above_threshold (map hd output)) \<and> map above_threshold (map hd output) ! i} =
        {i. i < length output \<and> float32 (80 / 100) < hd (output ! i)}"
    by (auto simp: above_threshold_def)
  then show ?thesis
    using assms boolean_index_nths [of "map above_threshold (map hd output)" COMs]
    by (simp add: select_true_cells_def column0_def boolean_index_def)
qed


lemma mask_message_raises:
  "py_format ''Mask and image have different shape for '' [directory] = Inl TypeError"
  by simp

lemma svg_header_formats:
  "\<exists>doc. py_format svg_header [a, b] = Inr doc"
  by (simp add: svg_header_def)

lemma svg_circle_formats:
  "\<exists>doc. py_format svg_circle [a, b] = Inr doc"
  by (simp add: svg_circle_def)

lemma shape_map_map [simp]: "shape (map (map f) a) = shape a"
  by (cases a) (simp_all add: shape_def nrows_def ncols_def)

lemma is_array2_map_map [simp]: "is_array2 (map (map f) a) = is_array2 a"
  by (cases a) (simp_all add: is_array2_def ncols_def list_all_iff)

lemma load_mask_mismatch:
  assumes "Mask_png fs = Some m" "shape arr \<noteq> shape m"
  shows "load_mask directory arr fs = ([Call_generate_border_and_mask], Inl (Raised TypeError))"
  using assms by (simp add: load_mask_def generate_border_and_mask_def Let_def)

lemma load_mask_cases:
  "load_mask directory arr fs = (cs, Inr msk) \<Longrightarrow>
   msk = map_option generate_border_and_mask (Mask_png fs) \<and>
   (case msk of None \<Rightarrow> True | Some m \<Rightarrow> shape m = shape arr) \<and>
   set cs \<subseteq> {Call_generate_border_and_mask}"
  by (auto simp: load_mask_def Let_def split: option.splits if_splits sum.splits)

text \<open>A section whose mask has another shape than its image: the run ends in \<^verbatim>\<open>TypeError\<close>.\<close>

lemma count_section_mask_mismatch:
  assumes "OutputFileType_any oft" "BoutonCount_csv fs = None" "Mask_png fs = Some m"
    and "shape arr \<noteq> shape m"
  shows "count_section env directory model oft arr fs =
         \<lparr> out_files = fs, out_calls = [Call_generate_border_and_mask], out_true_cells = None,
           out_status = Raised TypeError \<rparr>"
  using assms
  by (simp add: count_section_def obtain_true_cells_def detect_true_cells_def load_mask_mismatch)

lemma count_brain_raised:
  assumes "out_status (count_section env (fst s) model oft (fst (snd s)) (snd (snd s))) = Raised e"
  shows "count_brain env model oft (s # rest) =
         ([count_section env (fst s) model oft (fst (snd s)) (snd (snd s))], Some e)"
  using assms by (simp add: Let_def)

lemma out_calls_raise [simp]: "out_calls (raise r cs e) = out_calls r @ cs"
  by (simp add: raise_def)

lemma write_outputs_calls:
  "set (out_calls (write_outputs color directory oft shp cells r)) \<subseteq>
   set (out_calls r) \<union> {Call_CreateSVG, Call_CreatePNG, Call_savetxt}"
  by (auto simp: write_outputs_def write_svg_def write_png_def write_csv_def Let_def
      split: sum.splits if_splits)

lemma write_outputs_true_cells [simp]:
  "out_true_cells (write_outputs color directory oft shp cells r) = out_true_cells r"
  by (auto simp: write_outputs_def write_svg_def write_png_def write_csv_def Let_def raise_def
      split: sum.splits if_splits)

text \<open>
  When the table of a section exists, the run makes no call of the mask loader, the
  proposal or the classifier, and the candidates it works with are those \<^verbatim>\<open>np.loadtxt\<close>
  returns for the file.
\<close>

lemma cached_section_skips_detection:
  assumes "BoutonCount_csv fs = Some text"
  shows "set (out_calls (count_section env directory model oft arr fs)) \<inter>
           {Call_generate_border_and_mask, Call_local_minima_generate_points, Call_predict} = {}"
    and "OutputFileType_any oft \<Longrightarrow> loadtxt text = Inr a \<Longrightarrow>
           out_true_cells (count_section env directory model oft arr fs) = Some (astype_int16 a)"
proof -
  show "set (out_calls (count_section env directory model oft arr fs)) \<inter>
           {Call_generate_border_and_mask, Call_local_minima_generate_points, Call_predict} = {}"
  proof (cases "OutputFileType_any oft")
    case False
    then show ?thesis by (simp add: count_section_def)
  next
    case True
    show ?thesis
    proof (cases "loadtxt text")
      case (Inl e)
      then show ?thesis
        using True assms by (simp add: count_section_def obtain_true_cells_def)
    next
      case (Inr a)
      then show ?thesis
        using True assms
          write_outputs_calls [of "env_color env" directory oft "shape arr" "astype_int16 a"
            "\<lparr> out_files = fs, out_calls = [Call_loadtxt], out_true_cells = Some (astype_int16 a),
               out_status = Done \<rparr>"]
        by (auto simp: count_section_def obtain_true_cells_def)
    qed
  qed
  show "OutputFileType_any oft \<Longrightarrow> loadtxt text = Inr a \<Longrightarrow>
           out_true_cells (count_section env directory model oft arr fs) = Some (astype_int16 a)"
    using assms by (simp add: count_section_def obtain_true_cells_def)
qed


lemma extract_patches_error:
  "extract_patches RADIUS SIZE arr ps = Inl e \<Longrightarrow> e = ValueError"
  by (induction ps) (auto simp: assign_slice2_def Let_def split: sum.splits if_splits)

lemma select_true_cells_none:
  assumes "length output = length COMs" "list_all (\<lambda>row. row \<noteq> [] \<and> hd row \<le> float32 (80 / 100)) output"
  shows "select_true_cells COMs output = Inr (Array2 [])"
proof -
  have s: "{i. i < length output \<and> float32 (80 / 100) < hd (output ! i)} = {}"
    using assms(2) by (auto simp: list_all_length)
  have l: "list_all (\<lambda>row. row \<noteq> []) output"
    using assms(2) by (simp add: list_all_iff)
  show ?thesis
    using select_true_cells_eq [OF assms(1) l] unfolding s by simp
qed

lemma write_outputs_no_cells:
  assumes "3 \<le> length color" "out_status r = Done"
  shows "out_status (write_outputs color directory oft shp (Array2 []) r) = Done"
proof -
  obtain doc where "py_format svg_header [str_int (int (snd shp)), str_int (int (fst shp))] = Inr doc"
    using svg_header_formats by blast
  then show ?thesis
    using assms
    by (simp add: write_outputs_def write_svg_def write_png_def write_csv_def Let_def
        render_svg_def render_png_def render_canvas_def CreateSVG_init_def CreatePNG_output_def)
qed

text \<open>A run in which the classifier rejects every proposed candidate completes.\<close>

lemma count_section_all_rejected:
  assumes "OutputFileType_any oft" "BoutonCount_csv fs = None"
    and "load_mask directory arr fs = (cs, Inr msk)"
    and "local_minima_generate_points (env_gaussian_filter env) (env_RADIUS env) (env_SIZE env) arr msk =
         Inr (X, COMs)"
    and "length (model X) = length COMs"
    and "list_all (\<lambda>row. row \<noteq> [] \<and> hd row \<le> float32 (80 / 100)) (model X)"
    and "3 \<le> length (env_color env)"
  shows "out_status (count_section env directory model oft arr fs) = Done"
    and "out_true_cells (count_section env directory model oft arr fs) = Some (Array2 [])"
  using assms select_true_cells_none [OF assms(5,6)]
  by (simp_all add: count_section_def obtain_true_cells_def detect_true_cells_def
      write_outputs_no_cells)

lemma write_outputs_svg_kept:
  assumes "Boutons_svg (out_files r) = Some old"
  shows "Boutons_svg (out_files (write_outputs color directory oft shp cells r)) = Some old"
    and "Call_CreateSVG \<in> set (out_calls (write_outputs color directory oft shp cells r)) \<longleftrightarrow>
         Call_CreateSVG \<in> set (out_calls r)"
  using assms
  by (auto simp: write_outputs_def write_svg_def write_png_def write_csv_def Let_def raise_def
      split: sum.splits if_splits)

lemma write_outputs_done:
  assumes "out_status (write_outputs color directory oft shp cells r) = Done"
  shows "\<exists>n. shape0 cells = Inr n \<and>
           (oft_png oft \<longrightarrow>
              render_png color (directory @ ''/Boutons.png'') shp cells n =
                Inr (the (Boutons_png (out_files (write_outputs color directory oft shp cells r)))) \<and>
              Boutons_png (out_files (write_outputs color directory oft shp cells r)) \<noteq> None \<and>
              Call_CreatePNG \<in> set (out_calls (write_outputs color directory oft shp cells r))) \<and>
           (oft_csv oft \<longrightarrow>
              savetxt cells =
                Inr (the (BoutonCount_csv (out_files (write_outputs color directory oft shp cells r)))) \<and>
              BoutonCount_csv (out_files (write_outputs color directory oft shp cells r)) \<noteq> None \<and>
              Call_savetxt \<in> set (out_calls (write_outputs color directory oft shp cells r)))"
  using assms
  by (auto simp: write_outputs_def write_svg_def write_png_def write_csv_def Let_def raise_def
      split: sum.splits if_splits)

lemma digit_char_is_digit: "d < 10 \<Longrightarrow> is_digit (digit_char d)"
  unfolding is_digit_def digit_char_def by (rule nth_mem) simp

lemma digit_value_digit_char: "d < 10 \<Longrightarrow> digit_value (digit_char d) = int d"
proof -
  have "list_all (\<lambda>d. digit_value (digit_char d) = int d) [0..<10]"
    by code_simp
  then show "d < 10 \<Longrightarrow> digit_value (digit_char d) = int d"
    by (simp add: list_all_iff)
qed

lemma str_digits_not_empty [simp]: "str_digits n \<noteq> []"
  by (subst str_digits.simps) simp

lemma str_digits_digits: "list_all is_digit (str_digits n)"
proof (induction n rule: str_digits.induct)
  case (1 n)
  show ?case
  proof (cases "n < 10")
    case True
    then show ?thesis
      by (subst str_digits.simps) (simp add: digit_char_is_digit)
  next
    case False
    moreover have "nat (n mod 10) < 10" by simp
    ultimately show ?thesis
      using 1 by (subst str_digits.simps) (simp add: digit_char_is_digit)
  qed
qed

lemma foldl_push_digit:
  "foldl push_digit a ys = a * 10 ^ length ys + foldl push_digit 0 ys"
proof (induction ys arbitrary: a)
  case Nil
  show ?case by simp
next
  case (Cons y ys)
  have "foldl push_digit a (y # ys) = push_digit a y * 10 ^ length ys + foldl push_digit 0 ys"
    using Cons.IH [of "push_digit a y"] by simp
  also have "push_digit a y = 10 * a + digit_value y"
    by (simp add: push_digit_def)
  finally have l: "foldl push_digit a (y # ys) =
      (10 * a + digit_value y) * 10 ^ length ys + foldl push_digit 0 ys" .
  have "foldl push_digit 0 (y # ys) = push_digit 0 y * 10 ^ length ys + foldl push_digit 0 ys"
    using Cons.IH [of "push_digit 0 y"] by simp
  also have "push_digit 0 y = digit_value y"
    by (simp add: push_digit_def)
  finally have r: "foldl push_digit 0 (y # ys) =
      digit_value y * 10 ^ length ys + foldl push_digit 0 ys" .
  show ?case
    unfolding l r by (simp add: algebra_simps)
qed

lemma digits_value_append:
  "digits_value (xs @ ys) = digits_value xs * 10 ^ length ys + digits_value ys"
  unfolding digits_value_def foldl_append by (rule foldl_push_digit)

lemma digits_value_single [simp]: "digits_value [c] = digit_value c"
  by (simp add: digits_value_def push_digit_def)

lemma digits_value_zeros [simp]: "digits_value (replicate k CHR ''0'') = 0"
  by (induction k) (simp_all add: digits_value_def push_digit_def digit_value_def)

lemma digits_value_str_digits: "0 \<le> n \<Longrightarrow> digits_value (str_digits n) = n"
proof (induction n rule: str_digits.induct)
  case (1 n)
  show ?case
  proof (cases "n < 10")
    case True
    then show ?thesis
      using "1.prems" by (subst str_digits.simps) (simp add: digit_value_digit_char)
  next
    case False
    then have "digits_value (str_digits (n div 10)) = n div 10"
      using 1 by simp
    moreover have "digit_value (digit_char (nat (n mod 10))) = n mod 10"
      by (simp add: digit_value_digit_char)
    ultimately show ?thesis
      using False by (subst str_digits.simps) (simp add: digits_value_append)
  qed
qed

lemma length_str_digits: "0 < k \<Longrightarrow> n < 10 ^ k \<Longrightarrow> length (str_digits n) \<le> k"
proof (induction n arbitrary: k rule: str_digits.induct)
  case (1 n)
  show ?case
  proof (cases "n < 10")
    case True
    then show ?thesis
      using "1.prems" by (subst str_digits.simps) simp
  next
    case False
    then obtain k' where k: "k = Suc k'" "0 < k'"
      using "1.prems" by (cases k; cases "k - 1") auto
    then have "n div 10 < 10 ^ k'"
      using "1.prems" by simp
    then have "length (str_digits (n div 10)) \<le> k'"
      using 1 False k by simp
    then show ?thesis
      using False k by (subst str_digits.simps) simp
  qed
qed
lemma is_digit_not_symbol:
  "is_digit c \<Longrightarrow> c \<noteq> CHR ''-'' \<and> c \<noteq> CHR ''+'' \<and> c \<noteq> CHR ''.'' \<and> c \<noteq> CHR ''e'' \<and>
     c \<noteq> CHR ''E'' \<and> c \<noteq> CHR '','' \<and> c \<noteq> CHR ''\<newline>'' \<and> c \<noteq> CHR ''#''"
  by (auto simp: is_digit_def)

lemma takeWhile_digits:
  "list_all is_digit xs \<Longrightarrow> \<not> is_digit y \<Longrightarrow> takeWhile is_digit (xs @ y # ys) = xs"
  by (simp add: list_all_iff)

lemma dropWhile_digits:
  "list_all is_digit xs \<Longrightarrow> \<not> is_digit y \<Longrightarrow> dropWhile is_digit (xs @ y # ys) = y # ys"
  by (simp add: list_all_iff)

lemma pad2_digits:
  "list_all is_digit s \<Longrightarrow> list_all is_digit (pad2 s)"
  "s \<noteq> [] \<Longrightarrow> pad2 s \<noteq> []"
  "digits_value (pad2 s) = digits_value s"
  using digits_value_append [of "''0''" s]
  by (auto simp: pad2_def is_digit_def digit_value_def)

text \<open>The shape of the text \<^verbatim>\<open>%.18e\<close> gives for an integer of up to nineteen digits.\<close>

lemma format_18e_shape:
  assumes "0 \<le> n" "n < 10 ^ 19"
  shows "\<exists>d frac ex. format_18e n = d # CHR ''.'' # frac @ CHR ''e'' # CHR ''+'' # ex \<and>
           is_digit d \<and> list_all is_digit frac \<and> length frac = 18 \<and>
           list_all is_digit ex \<and> ex \<noteq> [] \<and>
           digits_value (d # frac) = n * 10 ^ nat (18 - digits_value ex) \<and>
           0 \<le> digits_value ex \<and> digits_value ex \<le> 18"
proof -
  obtain d rest where ds: "str_digits n = d # rest"
    by (cases "str_digits n") simp_all
  have dig: "is_digit d" "list_all is_digit rest"
    using str_digits_digits [of n] ds by simp_all
  have len: "length rest \<le> 18"
    using length_str_digits [of 19 n] assms(2) ds by simp
  let ?frac = "rest @ replicate (18 - length rest) CHR ''0''"
  let ?ex = "pad2 (str_digits (int (length rest)))"
  have ex: "list_all is_digit ?ex" "?ex \<noteq> []" "digits_value ?ex = int (length rest)"
    using pad2_digits [of "str_digits (int (length rest))"] str_digits_digits digits_value_str_digits
    by simp_all
  have f: "format_18e n = d # CHR ''.'' # ?frac @ CHR ''e'' # CHR ''+'' # ?ex"
    using assms(1) ds len by (simp add: format_18e_def Let_def)
  have "digits_value (d # ?frac) = digits_value ((d # rest) @ replicate (18 - length rest) CHR ''0'')"
    by simp
  also have "\<dots> = n * 10 ^ (18 - length rest)"
    using digits_value_str_digits [OF assms(1)] ds
    by (simp only: digits_value_append digits_value_zeros length_replicate)
  finally have v: "digits_value (d # ?frac) = n * 10 ^ (18 - length rest)" .
  have "list_all is_digit (replicate k CHR ''0'')" for k
    by (induction k) (simp_all add: is_digit_def)
  then have "list_all is_digit ?frac" "length ?frac = 18"
    using dig(2) len by simp_all
  then have "format_18e n = d # CHR ''.'' # ?frac @ CHR ''e'' # CHR ''+'' # ?ex \<and>
           is_digit d \<and> list_all is_digit ?frac \<and> length ?frac = 18 \<and>
           list_all is_digit ?ex \<and> ?ex \<noteq> [] \<and>
           digits_value (d # ?frac) = n * 10 ^ nat (18 - digits_value ?ex) \<and>
           0 \<le> digits_value ?ex \<and> digits_value ?ex \<le> 18"
    using f dig(1) ex v len by (simp add: nat_diff_distrib')
  then show ?thesis
    by blast
qed

lemma format_18e_symbols:
  assumes "0 \<le> n" "n < 10 ^ 19"
  shows "CHR '','' \<notin> set (format_18e n)" "CHR ''\<newline>'' \<notin> set (format_18e n)"
    "CHR ''#'' \<notin> set (format_18e n)" "format_18e n \<noteq> []"
proof -
  obtain d frac ex where "format_18e n = d # CHR ''.'' # frac @ CHR ''e'' # CHR ''+'' # ex"
    "is_digit d" "list_all is_digit frac" "list_all is_digit ex"
    using format_18e_shape [OF assms] by blast
  then show "CHR '','' \<notin> set (format_18e n)" "CHR ''\<newline>'' \<notin> set (format_18e n)"
    "CHR ''#'' \<notin> set (format_18e n)" "format_18e n \<noteq> []"
    using is_digit_not_symbol by (auto simp: list_all_iff)
qed

text \<open>Reading back what \<^verbatim>\<open>%.18e\<close> wrote gives the integer.\<close>

lemma py_float_format_18e:
  assumes "0 \<le> n" "n < 10 ^ 19"
  shows "py_float (format_18e n) = Inr (of_int n)"
proof -
  obtain d frac ex where f: "format_18e n = d # CHR ''.'' # frac @ CHR ''e'' # CHR ''+'' # ex"
    and d: "is_digit d" and frac: "list_all is_digit frac" "length frac = 18"
    and ex: "list_all is_digit ex" "ex \<noteq> []"
    and v: "digits_value (d # frac) = n * 10 ^ nat (18 - digits_value ex)"
    and e: "0 \<le> digits_value ex" "digits_value ex \<le> 18"
    using format_18e_shape [OF assms] by blast
  have nd: "\<not> is_digit CHR ''.''" "\<not> is_digit CHR ''e''"
    by (simp_all add: is_digit_def)
  have s: "split_sign (format_18e n) = (False, format_18e n)"
    using is_digit_not_symbol [OF d] by (simp add: f split_sign_def)
  have t: "takeWhile is_digit (format_18e n) = [d]"
    using takeWhile_digits [of "[d]" "CHR ''.''"] d nd by (simp add: f)
  have dr: "dropWhile is_digit (format_18e n) = CHR ''.'' # frac @ CHR ''e'' # CHR ''+'' # ex"
    using dropWhile_digits [of "[d]" "CHR ''.''"] d nd by (simp add: f)
  have fr: "split_fraction (CHR ''.'' # frac @ CHR ''e'' # CHR ''+'' # ex) = (frac, CHR ''e'' # CHR ''+'' # ex)"
    using takeWhile_digits [OF frac(1) nd(2)] dropWhile_digits [OF frac(1) nd(2)]
    by (simp add: split_fraction_def)
  have pe: "parse_exponent (CHR ''e'' # CHR ''+'' # ex) = Some (digits_value ex)"
    using ex by (simp add: parse_exponent_def split_sign_def Let_def)
  have "scale10 (digits_value (d # frac)) (digits_value ex - 18) = of_int n"
  proof (cases "digits_value ex = 18")
    case True
    then show ?thesis by (simp add: v scale10_def)
  next
    case False
    then have "digits_value ex < 18"
      using e by simp
    then show ?thesis
      by (simp add: v scale10_def)
  qed
  then show ?thesis
    by (simp add: py_float_def Let_def s t dr fr pe frac(2))
qed

lemma is_digit_not_space: "is_digit c \<Longrightarrow> \<not> is_space c"
  by (auto simp: is_digit_def is_space_def)

lemma strip_no_blanks:
  assumes "s \<noteq> []" "\<not> is_space (hd s)" "\<not> is_space (last s)"
  shows "strip s = s"
proof -
  have "dropWhile is_space s = s"
    using assms(1,2) by (cases s) simp_all
  moreover have "dropWhile is_space (rev s) = rev s"
    using assms(1,3) by (cases "rev s") (simp_all add: last_rev [symmetric] del: last_rev)
  ultimately show ?thesis
    by (simp add: strip_def)
qed

text \<open>A field that \<^verbatim>\<open>np.savetxt\<close> wrote for a coordinate is read as the coordinate.\<close>

lemma read_field_format_18e:
  assumes "0 \<le> n" "n < 2 ^ 53"
  shows "read_field (format_18e n) = Inr (Finite (of_int n))"
proof -
  have b: "n < 10 ^ 19"
    using assms(2) by simp
  obtain d frac ex where f: "format_18e n = d # CHR ''.'' # frac @ CHR ''e'' # CHR ''+'' # ex"
    and d: "is_digit d" and frac: "length frac = 18"
    and ex: "list_all is_digit ex" "ex \<noteq> []"
    using format_18e_shape [OF assms(1) b] by blast
  have l: "last (format_18e n) = last ex"
    using ex(2) by (simp add: f)
  have "is_digit (last ex)"
    using ex by (simp add: list_all_iff)
  then have st: "strip (format_18e n) = format_18e n"
    using d l by (intro strip_no_blanks) (simp_all add: f is_digit_not_space)
  have s: "split_sign (format_18e n) = (False, format_18e n)"
    using is_digit_not_symbol [OF d] by (simp add: f split_sign_def)
  have "8 < length (map lower (format_18e n))"
    by (simp add: f frac)
  then have w: "map lower (format_18e n) \<noteq> ''inf''" "map lower (format_18e n) \<noteq> ''infinity''"
    "map lower (format_18e n) \<noteq> ''nan''"
    by auto
  have "to_float64 (of_int n) = Finite (of_int n)"
    using assms by (intro to_float64_of_int) simp
  then show ?thesis
    using py_float_format_18e [OF assms(1) b] w
    by (simp add: read_field_def st s Let_def)
qed

lemma split_on_no_separator: "c \<notin> set a \<Longrightarrow> split_on c a = [a]"
  by (induction a) auto

lemma split_on_append: "c \<notin> set a \<Longrightarrow> split_on c (a @ c # b) = a # split_on c b"
  by (induction a) auto

lemma split_on_lines:
  "list_all (\<lambda>l. c \<notin> set l) ls \<Longrightarrow> split_on c (concat (map (\<lambda>l. l @ [c]) ls)) = ls @ [[]]"
  by (induction ls) (simp_all add: split_on_append)

lemma exponent_notation_format_18e:
  assumes "0 \<le> n" "n < 10 ^ 19"
  shows "exponent_notation (format_18e n)"
proof -
  obtain d frac ex where "format_18e n = d # CHR ''.'' # frac @ CHR ''e'' # CHR ''+'' # ex"
    "is_digit d" "list_all is_digit frac" "length frac = 18" "list_all is_digit ex" "ex \<noteq> []"
    using format_18e_shape [OF assms] by blast
  then show ?thesis
    by (simp add: exponent_notation_def)
qed

lemma small_coordinate:
  assumes "x < 2 ^ 53"
  shows "0 \<le> int x" "int x < 10 ^ 19"
proof -
  have "int x < int (2 ^ 53)"
    using assms by (simp only: of_nat_less_iff)
  also have "int (2 ^ 53) = 2 ^ 53"
    by simp
  also have "(2 :: int) ^ 53 < 10 ^ 19"
    by simp
  finally show "int x < 10 ^ 19" .
qed simp

lemma table_line_fields:
  assumes "fst p < 2 ^ 53" "snd p < 2 ^ 53"
  shows "split_on CHR '','' (table_line p) = [format_18e (int (fst p)), format_18e (int (snd p))]"
    and "CHR ''\<newline>'' \<notin> set (table_line p)"
proof -
  note a = small_coordinate [OF assms(1)] small_coordinate [OF assms(2)]
  show "split_on CHR '','' (table_line p) = [format_18e (int (fst p)), format_18e (int (snd p))]"
    using format_18e_symbols(1) [OF a(1,2)] format_18e_symbols(1) [OF a(3,4)]
    by (simp add: table_line_def split_on_append split_on_no_separator)
  show "CHR ''\<newline>'' \<notin> set (table_line p)"
    using format_18e_symbols(2) [OF a(1,2)] format_18e_symbols(2) [OF a(3,4)]
    by (simp add: table_line_def)
qed

lemma savetxt_coordinates:
  "savetxt (Array2 (map coordinates cells)) = Inr (concat (map (\<lambda>l. l @ ''\<newline>'') (map table_line cells)))"
  by (simp add: format_row_def coordinates_def table_line_def comp_def)

section \<open>The claims\<close>

subsection \<open>The proposal stage\<close>

text \<open>
  Claim C1, as amended. Let \<open>RADIUS\<close> be at least 1 and \<open>SIZE = 2 * RADIUS\<close>. For every
  intensity image and every optional inclusion mask of the shape of the image, the
  proposal stage returns exactly the pixels of the smoothed array whose value equals the
  4 by 4 grey-scale erosion at that pixel and is less than the float32 difference of the
  4 by 4 grey-scale dilation there and 0.01 (the dilation less the float32 number nearest
  to 0.01, rounded to float32), that lie where the mask (when there is one) is true, and
  that are outside the border band of width \<open>RADIUS\<close>, in row-major scan order, each with
  the patch about it. When there is no such pixel the stage fails on its assertion and
  returns nothing.
\<close>

theorem propose_returns_interior_candidates:
  assumes "0 < RADIUS" "SIZE = 2 * RADIUS"
    and "is_array2 arr" "mask_fits arr msk"
    and "is_array2 (gaussian_filter (astype_float32 arr))"
    and "shape (gaussian_filter (astype_float32 arr)) = shape arr"
  shows "local_minima_generate_points gaussian_filter RADIUS SIZE arr msk =
         (let smoothed = gaussian_filter (astype_float32 arr);
              candidates = filter (\<lambda>p. candidate_center smoothed p \<and> in_mask msk p \<and>
                                        \<not> in_border RADIUS (shape arr) p)
                             (row_major (shape arr))
          in if candidates = [] then Inl AssertionError
             else Inr (map (\<lambda>p. astype_float32 (patch_at RADIUS arr p)) candidates, candidates))"
  using assms
    local_minima_generate_points_eq [where arr = arr and gaussian_filter = gaussian_filter
      and msk = msk and SIZE = SIZE and RADIUS = RADIUS]
  by (simp add: Let_def conj_assoc)

theorem propose_returns_interior_candidates_witness:
  "(0::nat) < 1 \<and> (2::nat) = 2 * 1 \<and>
   is_array2 [[9, 9, 9], [9, 0, 9], [9, 9, 9 :: 8 word]] \<and>
   mask_fits [[9, 9, 9], [9, 0, 9], [9, 9, 9 :: 8 word]] (Some [[True, True, True], [True, True, True], [True, True, True]]) \<and>
   local_minima_generate_points (\<lambda>a. a) 1 2 [[9, 9, 9], [9, 0, 9], [9, 9, 9]]
     (Some [[True, True, True], [True, True, True], [True, True, True]]) =
   Inr ([[[9, 9], [9, 0]]], [(1, 1)])"
proof -
  let ?arr = "[[9, 9, 9], [9, 0, 9], [9, 9, 9 :: 8 word]]"
  let ?msk = "Some [[True, True, True], [True, True, True], [True, True, True]]"
  have h1: "(0::nat) < 1" and h2: "(2::nat) = 2 * 1" by simp_all
  have h3: "is_array2 ?arr" by code_simp
  have h4: "mask_fits ?arr ?msk" by code_simp
  have h5: "is_array2 ((\<lambda>a. a) (astype_float32 ?arr))" by code_simp
  have h6: "shape ((\<lambda>a. a) (astype_float32 ?arr)) = shape ?arr" by code_simp
  have e: "(let smoothed = (\<lambda>a. a) (astype_float32 ?arr);
              candidates = filter (\<lambda>p. candidate_center smoothed p \<and> in_mask ?msk p \<and>
                                        \<not> in_border 1 (shape ?arr) p)
                             (row_major (shape ?arr))
          in if candidates = [] then Inl AssertionError
             else Inr (map (\<lambda>p. astype_float32 (patch_at 1 ?arr p)) candidates, candidates)) =
        Inr ([[[9, 9], [9, 0]]], [(1, 1)])"
    by code_simp
  have "local_minima_generate_points (\<lambda>a. a) 1 2 ?arr ?msk = Inr ([[[9, 9], [9, 0]]], [(1, 1)])"
    using propose_returns_interior_candidates [where gaussian_filter = "\<lambda>a. a" and RADIUS = 1
        and SIZE = 2 and arr = ?arr and msk = ?msk] h1 h2 h3 h4 h5 h6
    unfolding e by simp
  then show ?thesis
    using h3 h4 by simp
qed

text \<open>
  Claim C1 as it is stated leaves the border band out: it gives the pixels that pass the
  erosion and dilation tests (and the mask). In the smoothed array below the pixels
  \<open>(0, 0)\<close> and \<open>(1, 1)\<close> both pass, and with \<open>RADIUS = 1\<close> the code returns \<open>(1, 1)\<close>
  alone, the pixel \<open>(0, 0)\<close> being in the border band.
\<close>

theorem propose_drops_border_candidates:
  "detect_local_minima 1 [[0, 9, 9], [9, 0, 9], [9, 9, 9]] None = Inr [(1, 1)] \<and>
   filter (\<lambda>p. candidate_center [[0, 9, 9], [9, 0, 9], [9, 9, 9]] p \<and> in_mask None p)
     (row_major (shape [[0, 9, 9], [9, 0, 9], [9, 9, 9 :: rat]])) = [(0, 0), (1, 1)]"
  by code_simp

text \<open>
  Claim C2. Every candidate the proposal stage returns, with or without a mask, lies at
  least \<open>RADIUS\<close> pixels from all four edges of the image: none has \<open>x < RADIUS\<close>,
  \<open>x \<ge> width - RADIUS\<close>, \<open>y < RADIUS\<close> or \<open>y \<ge> height - RADIUS\<close>, where \<open>x\<close> is the index
  along the first axis of the array, \<open>y\<close> the index along the second, and width and
  height are the extents of these two axes. Hence, when \<open>SIZE = 2 * RADIUS\<close>, the
  slice \<open>[x - RADIUS, x + RADIUS)\<close> by \<open>[y - RADIUS, y + RADIUS)\<close> taken for a candidate
  is within the bounds of the image and has exactly \<open>SIZE\<close> rows and \<open>SIZE\<close> columns.
\<close>

theorem candidates_at_least_RADIUS_from_edges:
  assumes "is_array2 arr" "mask_fits arr msk"
    and "is_array2 (gaussian_filter (astype_float32 arr))"
    and "shape (gaussian_filter (astype_float32 arr)) = shape arr"
    and "local_minima_generate_points gaussian_filter RADIUS SIZE arr msk = Inr (X, minima)"
  shows "list_all (\<lambda>p. \<not> in_border RADIUS (shape arr) p) minima \<and>
         (SIZE = 2 * RADIUS \<longrightarrow>
            list_all (\<lambda>p. 0 \<le> int (fst p) - int RADIUS \<and> int (fst p) + int RADIUS \<le> int (nrows arr) \<and>
                          0 \<le> int (snd p) - int RADIUS \<and> int (snd p) + int RADIUS \<le> int (ncols arr) \<and>
                          shape (patch_slice RADIUS arr p) = (SIZE, SIZE)) minima \<and>
            list_all (\<lambda>patch. shape patch = (SIZE, SIZE)) X)"
proof -
  let ?fuzzy = "gaussian_filter (astype_float32 arr)"
  have "mask_fits ?fuzzy msk"
    using assms(2,4) by (simp add: mask_fits_def split: option.splits)
  then have "detect_local_minima RADIUS ?fuzzy msk =
      Inr (filter (\<lambda>p. (candidate_center ?fuzzy p \<and> in_mask msk p) \<and> 0 < RADIUS \<and>
                        \<not> in_border RADIUS (shape arr) p) (row_major (shape arr)))"
    using detect_local_minima_eq [OF assms(3), of msk RADIUS] assms(4) by simp
  with local_minima_generate_points_Inr(1) [OF assms(5)]
  have m: "minima = filter (\<lambda>p. (candidate_center ?fuzzy p \<and> in_mask msk p) \<and> 0 < RADIUS \<and>
                        \<not> in_border RADIUS (shape arr) p) (row_major (shape arr))"
    by simp
  then have border: "list_all (\<lambda>p. \<not> in_border RADIUS (shape arr) p) minima"
    and r: "minima \<noteq> [] \<Longrightarrow> 0 < RADIUS"
    by (auto simp: list_all_iff filter_empty_conv)
  have inside: "list_all (\<lambda>p. 0 \<le> int (fst p) - int RADIUS \<and> int (fst p) + int RADIUS \<le> int (nrows arr) \<and>
                          0 \<le> int (snd p) - int RADIUS \<and> int (snd p) + int RADIUS \<le> int (ncols arr) \<and>
                          shape (patch_slice RADIUS arr p) = (2 * RADIUS, 2 * RADIUS)) minima"
    unfolding list_all_iff
  proof
    fix p assume p: "p \<in> set minima"
    then have "minima \<noteq> []" by auto
    with p have b: "\<not> in_border RADIUS (shape arr) p" and pos: "0 < RADIUS"
      using border r by (auto simp: list_all_iff)
    then have "patch_slice RADIUS arr p = patch_at RADIUS arr p"
      using patch_slice_inside [of arr RADIUS p] assms(1) by simp
    then have "shape (patch_slice RADIUS arr p) = (2 * RADIUS, 2 * RADIUS)"
      using pos by (simp add: patch_at_def shape_tabulate2)
    then show "0 \<le> int (fst p) - int RADIUS \<and> int (fst p) + int RADIUS \<le> int (nrows arr) \<and>
               0 \<le> int (snd p) - int RADIUS \<and> int (snd p) + int RADIUS \<le> int (ncols arr) \<and>
               shape (patch_slice RADIUS arr p) = (2 * RADIUS, 2 * RADIUS)"
      using b by (auto simp: in_border_def shape_def)
  qed
  have patches: "list_all (\<lambda>patch. shape patch = (2 * RADIUS, 2 * RADIUS)) X" if "SIZE = 2 * RADIUS"
  proof -
    have pos: "0 < RADIUS"
      using r local_minima_generate_points_Inr(2) [OF assms(5)] by simp
    have "extract_patches RADIUS (2 * RADIUS) arr minima =
          Inr (map (\<lambda>p. astype_float32 (patch_at RADIUS arr p)) minima)"
      using extract_patches_inside [of arr RADIUS minima] assms(1) pos border by simp
    with local_minima_generate_points_Inr(3) [OF assms(5)] that
    have "X = map (\<lambda>p. astype_float32 (patch_at RADIUS arr p)) minima"
      by simp
    then show ?thesis
      using pos by (simp add: list_all_iff patch_at_def shape_tabulate2)
  qed
  show ?thesis
    using border inside patches by simp
qed

theorem candidates_at_least_RADIUS_from_edges_witness:
  "list_all (\<lambda>p. \<not> in_border 1 (shape [[9, 9, 9, 9], [9, 0, 9, 9], [9, 9, 9, 9 :: 8 word]]) p) [(1, 1)] \<and>
   shape (patch_slice 1 [[9, 9, 9, 9], [9, 0, 9, 9], [9, 9, 9, 9 :: 8 word]] (1, 1)) = (2, 2)"
proof -
  let ?arr = "[[9, 9, 9, 9], [9, 0, 9, 9], [9, 9, 9, 9 :: 8 word]]"
  have h1: "is_array2 ?arr" by code_simp
  have h2: "mask_fits ?arr None" by code_simp
  have h3: "is_array2 ((\<lambda>a. a) (astype_float32 ?arr))" by code_simp
  have h4: "shape ((\<lambda>a. a) (astype_float32 ?arr)) = shape ?arr" by code_simp
  have h5: "local_minima_generate_points (\<lambda>a. a) 1 2 ?arr None = Inr ([[[9, 9], [9, 0]]], [(1, 1)])"
    by code_simp
  show ?thesis
    using candidates_at_least_RADIUS_from_edges [where gaussian_filter = "\<lambda>a. a" and arr = ?arr
        and msk = None and RADIUS = 1 and SIZE = 2 and X = "[[[9, 9], [9, 0]]]" and minima = "[(1, 1)]"]
      h1 h2 h3 h4 h5
    by simp
qed

subsection \<open>Normalisation\<close>

text \<open>
  Claim C3, as amended. For every input image (of one band of integer samples or of
  several bands of 8-bit samples) whose array, as \<^verbatim>\<open>file_to_array\<close> decodes it to
  16-bit integers, has a maximum that strictly exceeds its minimum, normalisation
  returns an 8-bit array of the shape of that array whose minimum is exactly 0 and whose
  maximum is exactly 255; every image of one band with samples from 0 to 65535 whose
  maximum strictly exceeds its minimum is such an image. When the decoded array is
  perfectly flat (maximum equal to minimum) normalisation does not fail: the division of
  zero by zero makes every sample NaN, and the array returned holds in every pixel the
  8-bit value the cast of NaN yields.
\<close>

theorem normalization_range:
  "(file_to_array nonfinite_short im = Inr img \<and> concat img \<noteq> [] \<and>
    Min (int16_to_float32 ` set (concat img)) < Max (int16_to_float32 ` set (concat img)) \<longrightarrow>
      (\<exists>out. normalize_file nonfinite_short nonfinite im = Inr out \<and> shape out = shape img \<and>
         Min (set (concat out)) = 0 \<and> Max (set (concat out)) = 255)) \<and>
   (concat a \<noteq> [] \<and> (\<forall>v \<in> set (concat a). 0 \<le> v \<and> v < 2 ^ 16) \<and>
    Min (set (concat a)) < Max (set (concat a)) \<longrightarrow>
      (\<exists>out. normalize_file nonfinite_short nonfinite (Grey a) = Inr out \<and> shape out = shape a \<and>
         Min (set (concat out)) = 0 \<and> Max (set (concat out)) = 255)) \<and>
   (file_to_array nonfinite_short im = Inr img \<and> concat img \<noteq> [] \<and>
    Min (int16_to_float32 ` set (concat img)) = Max (int16_to_float32 ` set (concat img)) \<longrightarrow>
      normalize_file nonfinite_short nonfinite im = Inr (map (map (\<lambda>_. nonfinite NaN)) img))"
proof (intro conjI impI)
  assume "file_to_array nonfinite_short im = Inr img \<and> concat img \<noteq> [] \<and>
    Min (int16_to_float32 ` set (concat img)) < Max (int16_to_float32 ` set (concat img))"
  then show "\<exists>out. normalize_file nonfinite_short nonfinite im = Inr out \<and> shape out = shape img \<and>
         Min (set (concat out)) = 0 \<and> Max (set (concat out)) = 255"
    using normalize_image_range [of img nonfinite] by (simp add: normalize_file_def)
next
  assume "concat a \<noteq> [] \<and> (\<forall>v \<in> set (concat a). 0 \<le> v \<and> v < 2 ^ 16) \<and>
    Min (set (concat a)) < Max (set (concat a))"
  then obtain img where img: "file_to_array nonfinite_short (Grey a) = Inr img" "shape img = shape a"
    "concat img \<noteq> []"
    "Min (int16_to_float32 ` set (concat img)) < Max (int16_to_float32 ` set (concat img))"
    using file_to_array_grey [of a nonfinite_short] by blast
  then show "\<exists>out. normalize_file nonfinite_short nonfinite (Grey a) = Inr out \<and> shape out = shape a \<and>
         Min (set (concat out)) = 0 \<and> Max (set (concat out)) = 255"
    using normalize_image_range [of img nonfinite] by (simp add: normalize_file_def)
next
  assume "file_to_array nonfinite_short im = Inr img \<and> concat img \<noteq> [] \<and>
    Min (int16_to_float32 ` set (concat img)) = Max (int16_to_float32 ` set (concat img))"
  then show "normalize_file nonfinite_short nonfinite im = Inr (map (map (\<lambda>_. nonfinite NaN)) img)"
    using normalize_image_flat [of img nonfinite] by (simp add: normalize_file_def)
qed

theorem normalization_range_witness:
  "normalize_file (\<lambda>_. 0) (\<lambda>_. 0)
     (Bands [[[10, 20, 30], [0, 0, 0]], [[255, 255, 255], [100, 100, 100]]]) =
     Inr [[20, 0], [255, 100]] \<and>
   Min (set (concat [[20, 0], [255, 100 :: 8 word]])) = 0 \<and>
   Max (set (concat [[20, 0], [255, 100 :: 8 word]])) = 255 \<and>
   normalize_file (\<lambda>_. 0) (\<lambda>_. 0) (Grey [[7, 8], [9, 300]]) = Inr [[0, 0], [1, 255]] \<and>
   Min (set (concat [[0, 0], [1, 255 :: 8 word]])) = 0 \<and>
   Max (set (concat [[0, 0], [1, 255 :: 8 word]])) = 255 \<and>
   normalize_file (\<lambda>_. 0) (\<lambda>_. 0) (Bands [[[106, 106, 106], [106, 106, 107]]]) = Inr [[0, 0]]"
proof -
  let ?im = "Bands [[[10, 20, 30], [0, 0, 0]], [[255, 255, 255], [100, 100, 100]]]"
  let ?img = "[[20, 0], [255, 100 :: 16 word]]"
  let ?a = "[[7, 8], [9, 300 :: int]]"
  let ?im' = "Bands [[[106, 106, 106], [106, 106, 107]]]"
  let ?flat = "[[254, 254 :: 16 word]]"
  let ?nfs = "\<lambda>_ :: float. 0 :: 16 word"
  let ?nf = "\<lambda>_ :: float. 0 :: 8 word"
  have h1: "file_to_array ?nfs ?im = Inr ?img" by code_simp
  have h2: "concat ?img \<noteq> []" by simp
  have h3: "Min (int16_to_float32 ` set (concat ?img)) < Max (int16_to_float32 ` set (concat ?img))"
    by code_simp
  have e: "normalize_file ?nfs ?nf ?im = Inr [[20, 0], [255, 100]]" by code_simp
  have g1: "concat ?a \<noteq> []" by simp
  have g2: "\<forall>v \<in> set (concat ?a). 0 \<le> v \<and> v < 2 ^ 16" by simp
  have g3: "Min (set (concat ?a)) < Max (set (concat ?a))" by simp
  have e': "normalize_file ?nfs ?nf (Grey ?a) = Inr [[0, 0], [1, 255]]" by code_simp
  have f1: "file_to_array ?nfs ?im' = Inr ?flat" by code_simp
  have f2: "concat ?flat \<noteq> []" by simp
  have f3: "Min (int16_to_float32 ` set (concat ?flat)) = Max (int16_to_float32 ` set (concat ?flat))"
    by code_simp
  note t = normalization_range [where nonfinite_short = ?nfs and nonfinite = ?nf]
  from t [where im = ?im and img = ?img] h1 h2 h3
  obtain out where "normalize_file ?nfs ?nf ?im = Inr out"
    "Min (set (concat out)) = 0" "Max (set (concat out)) = 255"
    by blast
  with e have m: "Min (set (concat [[20, 0], [255, 100 :: 8 word]])) = 0"
    "Max (set (concat [[20, 0], [255, 100 :: 8 word]])) = 255"
    by simp_all
  from t [where a = ?a] g1 g2 g3
  obtain out' where "normalize_file ?nfs ?nf (Grey ?a) = Inr out'"
    "Min (set (concat out')) = 0" "Max (set (concat out')) = 255"
    by blast
  with e' have m': "Min (set (concat [[0, 0], [1, 255 :: 8 word]])) = 0"
    "Max (set (concat [[0, 0], [1, 255 :: 8 word]])) = 255"
    by simp_all
  from t [where im = ?im' and img = ?flat] f1 f2 f3
  have "normalize_file ?nfs ?nf ?im' = Inr [[0, 0]]"
    by simp
  then show ?thesis
    using e e' m m' by simp
qed

text \<open>
  Claim C3 as it is stated has a flat image fail. The code has no such failure: for the
  flat image below (the platform's cast of NaN taken to be 0) it returns an array.
\<close>

theorem normalization_of_flat_image_returns:
  "normalize_file (\<lambda>_. 0) (\<lambda>_. 0) (Grey [[7, 7], [7, 7]]) = Inr [[0, 0], [0, 0]]"
  by code_simp

subsection \<open>A section whose table exists\<close>

text \<open>
  Claim C4 (the code departs from it). A section with exactly one accepted candidate,
  at \<open>(10, 12)\<close>: its table, as \<^verbatim>\<open>np.savetxt\<close> writes it, is a single line. On the next
  run \<^verbatim>\<open>np.loadtxt\<close> returns for this file an array of one dimension, \<open>[10, 12]\<close>, in
  place of the one row of two coordinates. When the raster output is requested the run
  then ends in \<^verbatim>\<open>IndexError\<close> at \<^verbatim>\<open>true_cells[i, 1]\<close>; when only the table is requested
  the file is written again with two lines of one value each. The classifier is called
  in neither run.
\<close>

theorem cached_single_candidate_is_misread:
  "savetxt (Array2 [[10, 12]]) = Inr ''1.000000000000000000e+01,1.200000000000000000e+01\<newline>'' \<and>
   count_section env ''Section_01'' model \<lparr> oft_svg = False, oft_csv = False, oft_png = True \<rparr>
     (tabulate2 20 20 (\<lambda>_ _. 0))
     \<lparr> Mask_png = None,
       BoutonCount_csv = Some ''1.000000000000000000e+01,1.200000000000000000e+01\<newline>'',
       Boutons_svg = None, Boutons_png = None \<rparr> =
   \<lparr> out_files =
       \<lparr> Mask_png = None,
         BoutonCount_csv = Some ''1.000000000000000000e+01,1.200000000000000000e+01\<newline>'',
         Boutons_svg = None, Boutons_png = None \<rparr>,
     out_calls = [Call_loadtxt, Call_CreatePNG],
     out_true_cells = Some (Array1 [10, 12]),
     out_status = Raised IndexError \<rparr> \<and>
   count_section env ''Section_01'' model \<lparr> oft_svg = False, oft_csv = True, oft_png = False \<rparr>
     (tabulate2 20 20 (\<lambda>_ _. 0))
     \<lparr> Mask_png = None,
       BoutonCount_csv = Some ''1.000000000000000000e+01,1.200000000000000000e+01\<newline>'',
       Boutons_svg = None, Boutons_png = None \<rparr> =
   \<lparr> out_files =
       \<lparr> Mask_png = None,
         BoutonCount_csv = Some ''1.000000000000000000e+01\<newline>1.200000000000000000e+01\<newline>'',
         Boutons_svg = None, Boutons_png = None \<rparr>,
     out_calls = [Call_loadtxt, Call_savetxt],
     out_true_cells = Some (Array1 [10, 12]),
     out_status = Done \<rparr>"
  by code_simp

subsection \<open>Verification\<close>




subsection \<open>A mask of another shape than the image\<close>

text \<open>
  Claim C6 (the code departs from it). A section with an image of 100 by 200 pixels and
  a mask of 100 by 150 pixels, followed by another section. The message the code prints
  for the mismatch is formatted from a string without a conversion, which raises
  \<^verbatim>\<open>TypeError\<close>; nothing catches it, so the exception leaves \<^verbatim>\<open>count_section\<close> and ends
  the loop of \<^verbatim>\<open>count_brain\<close>: the next section is not processed.
\<close>

theorem mask_shape_mismatch_ends_batch:
  "count_brain env model \<lparr> oft_svg = True, oft_csv = True, oft_png = True \<rparr>
     [(''Section_01'', tabulate2 100 200 (\<lambda>_ _. 0),
       \<lparr> Mask_png = Some (tabulate2 100 150 (\<lambda>_ _. 255)), BoutonCount_csv = None,
         Boutons_svg = None, Boutons_png = None \<rparr>),
      next_section] =
   ([\<lparr> out_files = \<lparr> Mask_png = Some (tabulate2 100 150 (\<lambda>_ _. 255)), BoutonCount_csv = None,
                        Boutons_svg = None, Boutons_png = None \<rparr>,
       out_calls = [Call_generate_border_and_mask], out_true_cells = None,
       out_status = Raised TypeError \<rparr>],
    Some TypeError)"
proof -
  let ?fs = "\<lparr> Mask_png = Some (tabulate2 100 150 (\<lambda>_ _. 255 :: 16 word)), BoutonCount_csv = None,
               Boutons_svg = None, Boutons_png = None \<rparr>"
  let ?arr = "tabulate2 100 200 (\<lambda>_ _. 0 :: 8 word)"
  let ?oft = "\<lparr> oft_svg = True, oft_csv = True, oft_png = True \<rparr>"
  have r: "count_section env ''Section_01'' model ?oft ?arr ?fs =
        \<lparr> out_files = ?fs, out_calls = [Call_generate_border_and_mask], out_true_cells = None,
          out_status = Raised TypeError \<rparr>"
    by (rule count_section_mask_mismatch [where m = "tabulate2 100 150 (\<lambda>_ _. 255)"])
       (simp_all add: OutputFileType_any_def shape_tabulate2)
  show ?thesis
    using count_brain_raised [of env "(''Section_01'', ?arr, ?fs)" model ?oft TypeError "[next_section]"]
    by (simp add: r)
qed

subsection \<open>No candidates\<close>

text \<open>
  Claim C7. The proposal stage fails with its error for no candidates (the assertion
  \<^verbatim>\<open>minima.shape[0] > 0\<close>, an \<^verbatim>\<open>AssertionError\<close>) if and only if the candidate set it
  produces is empty. A final result that is empty because every proposed candidate
  scored at or below the threshold of verification (the float32 number nearest to 0.80)
  is a normal outcome: the run of the section completes, with no accepted candidate.
\<close>

theorem no_candidates_error:
  assumes "detect_local_minima (env_RADIUS env) (env_gaussian_filter env (astype_float32 arr)) msk =
           Inr candidates"
  shows "(local_minima_generate_points (env_gaussian_filter env) (env_RADIUS env) (env_SIZE env) arr msk =
            Inl AssertionError \<longleftrightarrow> candidates = []) \<and>
         (OutputFileType_any oft \<and> BoutonCount_csv fs = None \<and>
          load_mask directory arr fs = (cs, Inr msk) \<and>
          local_minima_generate_points (env_gaussian_filter env) (env_RADIUS env) (env_SIZE env) arr msk =
            Inr (X, candidates) \<and>
          length (model X) = length candidates \<and>
          list_all (\<lambda>row. row \<noteq> [] \<and> hd row \<le> float32 (80 / 100)) (model X) \<and>
          3 \<le> length (env_color env) \<longrightarrow>
          out_status (count_section env directory model oft arr fs) = Done \<and>
          out_true_cells (count_section env directory model oft arr fs) = Some (Array2 []))"
proof
  show "local_minima_generate_points (env_gaussian_filter env) (env_RADIUS env) (env_SIZE env) arr msk =
            Inl AssertionError \<longleftrightarrow> candidates = []"
    using assms extract_patches_error [of "env_RADIUS env" "env_SIZE env" arr candidates]
    by (auto simp: local_minima_generate_points_def Let_def split: sum.splits)
next
  show "OutputFileType_any oft \<and> BoutonCount_csv fs = None \<and>
          load_mask directory arr fs = (cs, Inr msk) \<and>
          local_minima_generate_points (env_gaussian_filter env) (env_RADIUS env) (env_SIZE env) arr msk =
            Inr (X, candidates) \<and>
          length (model X) = length candidates \<and>
          list_all (\<lambda>row. row \<noteq> [] \<and> hd row \<le> float32 (80 / 100)) (model X) \<and>
          3 \<le> length (env_color env) \<longrightarrow>
          out_status (count_section env directory model oft arr fs) = Done \<and>
          out_true_cells (count_section env directory model oft arr fs) = Some (Array2 [])"
    using count_section_all_rejected [of oft fs directory arr cs msk env X candidates model]
    by blast
qed

theorem no_candidates_error_witness:
  "local_minima_generate_points (\<lambda>a. a) 1 2 [[9, 9, 9], [9, 9, 9], [9, 9, 9]] None = Inl AssertionError \<and>
   out_status
     (count_section \<lparr> env_RADIUS = 1, env_SIZE = 2, env_color = [255, 0, 0], env_gaussian_filter = \<lambda>a. a \<rparr>
        ''Section_01'' (map (\<lambda>patch. [1 / 2])) \<lparr> oft_svg = True, oft_csv = True, oft_png = True \<rparr>
        [[9, 9, 9], [9, 0, 9], [9, 9, 9]]
        \<lparr> Mask_png = None, BoutonCount_csv = None, Boutons_svg = None, Boutons_png = None \<rparr>) = Done \<and>
   out_true_cells
     (count_section \<lparr> env_RADIUS = 1, env_SIZE = 2, env_color = [255, 0, 0], env_gaussian_filter = \<lambda>a. a \<rparr>
        ''Section_01'' (map (\<lambda>patch. [1 / 2])) \<lparr> oft_svg = True, oft_csv = True, oft_png = True \<rparr>
        [[9, 9, 9], [9, 0, 9], [9, 9, 9]]
        \<lparr> Mask_png = None, BoutonCount_csv = None, Boutons_svg = None, Boutons_png = None \<rparr>) =
     Some (Array2 [])"
proof -
  let ?env = "\<lparr> env_RADIUS = 1, env_SIZE = 2, env_color = [255, 0, 0], env_gaussian_filter = \<lambda>a. a \<rparr>"
  let ?oft = "\<lparr> oft_svg = True, oft_csv = True, oft_png = True \<rparr>"
  let ?fs = "\<lparr> Mask_png = None, BoutonCount_csv = None, Boutons_svg = None, Boutons_png = None \<rparr>"
  let ?flat = "[[9, 9, 9], [9, 9, 9], [9, 9, 9 :: 8 word]]"
  let ?arr = "[[9, 9, 9], [9, 0, 9], [9, 9, 9 :: 8 word]]"
  let ?model = "map (\<lambda>patch :: rat array2. [1 / 2 :: rat])"
  have d0: "detect_local_minima (env_RADIUS ?env) (env_gaussian_filter ?env (astype_float32 ?flat)) None = Inr []"
    by code_simp
  have d1: "detect_local_minima (env_RADIUS ?env) (env_gaussian_filter ?env (astype_float32 ?arr)) None =
            Inr [(1, 1)]"
    by code_simp
  have p: "local_minima_generate_points (env_gaussian_filter ?env) (env_RADIUS ?env) (env_SIZE ?env) ?arr None =
           Inr ([[[9, 9], [9, 0]]], [(1, 1)])"
    by code_simp
  have m: "load_mask ''Section_01'' ?arr ?fs = ([], Inr None)"
    by (simp add: load_mask_def)
  have a: "local_minima_generate_points (\<lambda>a. a) 1 2 ?flat None = Inl AssertionError"
    using no_candidates_error [OF d0, where oft = ?oft and fs = ?fs and X = "[]" and model = ?model
        and directory = "''Section_01''" and cs = "[]"]
    by simp
  have "out_status (count_section ?env ''Section_01'' ?model ?oft ?arr ?fs) = Done \<and>
        out_true_cells (count_section ?env ''Section_01'' ?model ?oft ?arr ?fs) = Some (Array2 [])"
    using no_candidates_error [OF d1, where oft = ?oft and fs = ?fs and X = "[[[9, 9], [9, 0]]]"
        and model = ?model and directory = "''Section_01''" and cs = "[]"] p m
    by (simp add: OutputFileType_any_def float32_constants)
  with a show ?thesis by simp
qed

subsection \<open>The table of coordinates\<close>

text \<open>
  Claim C8, as amended. For every list of accepted candidates that verification
  produces, the tabular output written for the section is a comma-delimited text with no
  header and exactly one line for each accepted candidate, in their order; each line
  holds exactly two fields, the row coordinate and the column coordinate. The fields are
  not written as integers: each is in the exponent notation of the format \<^verbatim>\<open>%.18e\<close> (10
  is written \<^verbatim>\<open>1.000000000000000000e+01\<close>), and reads back as the coordinate.
  (Coordinates are below \<open>2\<^sup>5\<^sup>3\<close>, as every index of an array is.)
\<close>

theorem tabular_output_format:
  assumes "list_all (\<lambda>p. fst p < 2 ^ 53 \<and> snd p < 2 ^ 53) cells"
  shows "\<exists>text. savetxt (Array2 (map coordinates cells)) = Inr text \<and>
           split_on CHR ''\<newline>'' text = map table_line cells @ [''''] \<and>
           list_all (\<lambda>p. split_on CHR '','' (table_line p) =
                            [format_18e (int (fst p)), format_18e (int (snd p))] \<and>
                          exponent_notation (format_18e (int (fst p))) \<and>
                          exponent_notation (format_18e (int (snd p))) \<and>
                          py_float (format_18e (int (fst p))) = Inr (of_nat (fst p)) \<and>
                          py_float (format_18e (int (snd p))) = Inr (of_nat (snd p))) cells"
proof -
  have fields: "split_on CHR '','' (table_line p) = [format_18e (int (fst p)), format_18e (int (snd p))] \<and>
      exponent_notation (format_18e (int (fst p))) \<and>
      exponent_notation (format_18e (int (snd p))) \<and>
      py_float (format_18e (int (fst p))) = Inr (of_nat (fst p)) \<and>
      py_float (format_18e (int (snd p))) = Inr (of_nat (snd p))"
    and line: "CHR ''\<newline>'' \<notin> set (table_line p)"
    if "p \<in> set cells" for p
  proof -
    have b: "fst p < 2 ^ 53" "snd p < 2 ^ 53"
      using assms that by (auto simp: list_all_iff)
    note a = small_coordinate [OF b(1)] small_coordinate [OF b(2)]
    show "split_on CHR '','' (table_line p) = [format_18e (int (fst p)), format_18e (int (snd p))] \<and>
      exponent_notation (format_18e (int (fst p))) \<and>
      exponent_notation (format_18e (int (snd p))) \<and>
      py_float (format_18e (int (fst p))) = Inr (of_nat (fst p)) \<and>
      py_float (format_18e (int (snd p))) = Inr (of_nat (snd p))"
      using table_line_fields(1) [OF b] exponent_notation_format_18e [OF a(1,2)]
        exponent_notation_format_18e [OF a(3,4)] py_float_format_18e [OF a(1,2)]
        py_float_format_18e [OF a(3,4)]
      by simp
    show "CHR ''\<newline>'' \<notin> set (table_line p)"
      by (rule table_line_fields(2) [OF b])
  qed
  have "split_on CHR ''\<newline>'' (concat (map (\<lambda>l. l @ ''\<newline>'') (map table_line cells))) =
        map table_line cells @ ['''']"
    by (rule split_on_lines) (use line in \<open>simp add: list_all_iff\<close>)
  then show ?thesis
    unfolding savetxt_coordinates using fields by (simp add: list_all_iff)
qed

theorem tabular_output_format_witness:
  "savetxt (Array2 (map coordinates [(10, 12), (3, 4)])) =
     Inr ''1.000000000000000000e+01,1.200000000000000000e+01\<newline>3.000000000000000000e+00,4.000000000000000000e+00\<newline>'' \<and>
   split_on CHR ''\<newline>''
     ''1.000000000000000000e+01,1.200000000000000000e+01\<newline>3.000000000000000000e+00,4.000000000000000000e+00\<newline>'' =
     [''1.000000000000000000e+01,1.200000000000000000e+01'',
      ''3.000000000000000000e+00,4.000000000000000000e+00'', ''''] \<and>
   split_on CHR '','' ''1.000000000000000000e+01,1.200000000000000000e+01'' =
     [''1.000000000000000000e+01'', ''1.200000000000000000e+01''] \<and>
   py_float ''1.000000000000000000e+01'' = Inr 10"
proof -
  let ?cells = "[(10, 12), (3, 4)] :: (nat \<times> nat) list"
  have h: "list_all (\<lambda>p. fst p < 2 ^ 53 \<and> snd p < 2 ^ 53) ?cells"
    by simp
  have e: "savetxt (Array2 (map coordinates ?cells)) =
     Inr ''1.000000000000000000e+01,1.200000000000000000e+01\<newline>3.000000000000000000e+00,4.000000000000000000e+00\<newline>''"
    by code_simp
  have l: "map table_line ?cells =
     [''1.000000000000000000e+01,1.200000000000000000e+01'',
      ''3.000000000000000000e+00,4.000000000000000000e+00'']"
    by code_simp
  have f: "format_18e (int 10) = ''1.000000000000000000e+01''"
    "format_18e (int 12) = ''1.200000000000000000e+01''"
    by code_simp+
  from tabular_output_format [OF h] obtain written where
    t: "savetxt (Array2 (map coordinates ?cells)) = Inr written"
      "split_on CHR ''\<newline>'' written = map table_line ?cells @ ['''']"
      "list_all (\<lambda>p. split_on CHR '','' (table_line p) =
                            [format_18e (int (fst p)), format_18e (int (snd p))] \<and>
                          exponent_notation (format_18e (int (fst p))) \<and>
                          exponent_notation (format_18e (int (snd p))) \<and>
                          py_float (format_18e (int (fst p))) = Inr (of_nat (fst p)) \<and>
                          py_float (format_18e (int (snd p))) = Inr (of_nat (snd p))) ?cells"
    by blast
  from t(1) e have written: "written =
     ''1.000000000000000000e+01,1.200000000000000000e+01\<newline>3.000000000000000000e+00,4.000000000000000000e+00\<newline>''"
    by simp
  have "split_on CHR '','' (table_line (10, 12)) = [format_18e (int 10), format_18e (int 12)]"
    "py_float (format_18e (int 10)) = Inr 10"
    using t(3) by simp_all
  moreover have "table_line (10, 12) = ''1.000000000000000000e+01,1.200000000000000000e+01''"
    using l by simp
  ultimately show ?thesis
    using e t(2) unfolding written l f by simp
qed

text \<open>
  Claim C8 as it is stated has the coordinates written as integers. The table for the
  single candidate \<open>(10, 12)\<close> holds neither \<^verbatim>\<open>10\<close> nor \<^verbatim>\<open>12\<close> in that form.
\<close>

theorem tabular_output_is_not_integers:
  "savetxt (Array2 (map coordinates [(10, 12)])) =
     Inr ''1.000000000000000000e+01,1.200000000000000000e+01\<newline>'' \<and>
   \<not> integer_numeral ''1.000000000000000000e+01'' \<and>
   \<not> integer_numeral ''1.200000000000000000e+01''"
  by code_simp

subsection \<open>Rendering\<close>

text \<open>
  Claim C9. Rendering a single accepted candidate at \<open>(10, 10)\<close> on a 20 by 20 canvas
  sets in the boolean canvas of the raster overlay exactly the pixels
  \<open>(10 + dx, 10 + dy)\<close> with \<open>dx\<^sup>2 + dy\<^sup>2 \<le> 9\<close>, which are 29 pixels, and no others, and
  produces a vector document with exactly one circle element, with \<open>cx=10\<close> and
  \<open>cy=10\<close>.
\<close>

theorem render_single_candidate:
  "map_sum id (\<lambda>png. np_where (png_arr png))
     (render_canvas ''Boutons.png'' (20, 20) (Array2 [[10, 10]]) 1) =
     Inr (filter (\<lambda>p. (int (fst p) - 10)\<^sup>2 + (int (snd p) - 10)\<^sup>2 \<le> 9) (row_major (20, 20))) \<and>
   length (filter (\<lambda>p. (int (fst p) - 10)\<^sup>2 + (int (snd p) - 10)\<^sup>2 \<le> 9) (row_major (20, 20))) = 29 \<and>
   map_sum id (\<lambda>png. shape (png_arr png))
     (render_canvas ''Boutons.png'' (20, 20) (Array2 [[10, 10]]) 1) = Inr (20, 20) \<and>
   render_svg ''Boutons.svg'' (20, 20) (Array2 [[10, 10]]) 1 =
     Inr (''<svg id=\"_Boutons\" data-name=\"Boutons\" xmlns=\"http://www.w3.org/2000/svg\" viewBox=\"0 0 20 20\">'' @
          ''<defs><style>.cls-1{fill:black;stroke:black;}</style></defs>'' @
          ''<circle class=\"cls-1\" cx=\"10\" cy=\"10\" r=\"1\"/>'' @
          ''</svg>'')"
  by code_simp

subsection \<open>Which outputs are written again\<close>




end
